theory Spec2Isabelle
  imports Complex_Main "HOL-Library.Sublist" "HOL-Library.AList"
begin

section \<open>Python values\<close>

text \<open>
  The program reads its configuration and its quest records with \<^verbatim>\<open>json.load\<close> and
  never checks what it gets: \<^verbatim>\<open>Quest.from_dict\<close> stores whatever value a key holds,
  and the configuration is subscripted where it is used. The values are therefore
  modelled as Python has them after decoding JSON.

  A string is a list of code points below 256 (\<^typ>\<open>char\<close>). A float is represented by
  what this program can observe of it: whether it is non-zero, the integer it equals (if
  any), and its \<^verbatim>\<open>repr\<close> text.
\<close>

record pyfloat =
  float_nonzero :: bool
  float_integral :: "int option"
  float_repr :: string

datatype pyval =
    PNone
  | PBool bool
  | PInt int
  | PFloat pyfloat
  | PStr string
  | PList "pyval list"
  | PDict "(string \<times> pyval) list"

text \<open>
  The exceptions the program can raise. \<open>External\<close> is an exception of the API client
  or of the file write that is an \<^verbatim>\<open>Exception\<close>, with its message. \<open>Interrupt\<close> is one
  that is not (\<^verbatim>\<open>KeyboardInterrupt\<close>, \<^verbatim>\<open>SystemExit\<close>): \<^verbatim>\<open>except Exception\<close> lets it
  pass, which \<open>caught\<close> tells.
\<close>

datatype error =
    FileNotFoundError
  | JSONDecodeError
  | KeyError
  | TypeError
  | AttributeError
  | ValueError
  | OverflowError
  | OSError
  | External string
  | Interrupt string

fun caught :: "error \<Rightarrow> bool" where
  "caught (Interrupt m) = False"
| "caught _ = True"

text \<open>Truthiness, as \<^verbatim>\<open>if x:\<close> and \<^verbatim>\<open>x or y\<close> test it.\<close>

fun truthy :: "pyval \<Rightarrow> bool" where
  "truthy PNone = False"
| "truthy (PBool b) = b"
| "truthy (PInt i) = (i \<noteq> 0)"
| "truthy (PFloat f) = float_nonzero f"
| "truthy (PStr s) = (s \<noteq> [])"
| "truthy (PList xs) = (xs \<noteq> [])"
| "truthy (PDict kvs) = (kvs \<noteq> [])"

definition py_or :: "pyval \<Rightarrow> pyval \<Rightarrow> pyval" where
  "py_or x y = (if truthy x then x else y)"

text \<open>\<^verbatim>\<open>x[key]\<close> with a string key: only a dict can be subscripted so.\<close>

fun subscript :: "pyval \<Rightarrow> string \<Rightarrow> error + pyval" where
  "subscript (PDict kvs) k = (case map_of kvs k of None \<Rightarrow> Inl KeyError | Some v \<Rightarrow> Inr v)"
| "subscript _ k = Inl TypeError"

definition subscript2 :: "pyval \<Rightarrow> string \<Rightarrow> string \<Rightarrow> error + pyval" where
  "subscript2 x a b = (case subscript x a of Inl err \<Rightarrow> Inl err | Inr y \<Rightarrow> subscript y b)"

text \<open>\<^verbatim>\<open>key in x\<close> with a string key: a key of a dict, an element of a list, a substring
  of a string; anything else is not iterable.\<close>

fun contains :: "pyval \<Rightarrow> string \<Rightarrow> error + bool" where
  "contains (PDict kvs) k = Inr (k \<in> set (map fst kvs))"
| "contains (PList xs) k = Inr (PStr k \<in> set xs)"
| "contains (PStr s) k = Inr (sublist k s)"
| "contains _ k = Inl TypeError"

text \<open>\<^verbatim>\<open>x in ids\<close> holds when \<open>x\<close> equals one of the ints: an int, a bool (\<^verbatim>\<open>True == 1\<close>)
  or a float of that value. A list of ints is searched with \<^verbatim>\<open>==\<close>; for a set of ints
  \<open>x\<close> is hashed first, which a list or a dict refuses.\<close>

fun as_int :: "pyval \<Rightarrow> int option" where
  "as_int (PInt i) = Some i"
| "as_int (PBool b) = Some (if b then 1 else 0)"
| "as_int (PFloat f) = float_integral f"
| "as_int _ = None"

definition equals_member :: "pyval \<Rightarrow> int set \<Rightarrow> bool" where
  "equals_member x ids = (case as_int x of None \<Rightarrow> False | Some i \<Rightarrow> i \<in> ids)"

definition in_int_list :: "pyval \<Rightarrow> int list \<Rightarrow> bool" where
  "in_int_list x ids = equals_member x (set ids)"

fun hashable :: "pyval \<Rightarrow> bool" where
  "hashable (PList xs) = False"
| "hashable (PDict kvs) = False"
| "hashable _ = True"

definition in_int_set :: "pyval \<Rightarrow> int set \<Rightarrow> error + bool" where
  "in_int_set x ids = (if hashable x then Inr (equals_member x ids) else Inl TypeError)"

section \<open>Strings\<close>

text \<open>\<^verbatim>\<open>str.strip()\<close> removes the characters \<^verbatim>\<open>str.isspace\<close> accepts.\<close>

definition is_space :: "char \<Rightarrow> bool" where
  "is_space c = (let n = (of_char c :: nat) in
     (9 \<le> n \<and> n \<le> 13) \<or> (28 \<le> n \<and> n \<le> 32) \<or> n = 133 \<or> n = 160)"

definition py_strip :: "string \<Rightarrow> string" where
  "py_strip s = rev (dropWhile is_space (rev (dropWhile is_space s)))"

text \<open>\<^verbatim>\<open>str(i)\<close> of an int.\<close>

definition digit_char :: "nat \<Rightarrow> char" where
  "digit_char n = char_of (48 + n)"

function show_nat :: "nat \<Rightarrow> string" where
  "show_nat n = (if n < 10 then [digit_char n] else show_nat (n div 10) @ [digit_char (n mod 10)])"
  by pat_completeness auto
termination
  by (relation "measure (\<lambda>n. n)") auto

declare show_nat.simps [simp del]

definition show_int :: "int \<Rightarrow> string" where
  "show_int i = (if i < 0 then CHR ''-'' # show_nat (nat (- i)) else show_nat (nat i))"

text \<open>
  \<^verbatim>\<open>int(s)\<close> in base 10: white space around, one optional sign, then digits with
  single underscores between them. The white space of \<^verbatim>\<open>int\<close> is narrower than that of
  \<^verbatim>\<open>strip\<close>: the separators 0x1c to 0x1f are not part of it.
\<close>

definition int_space :: "char \<Rightarrow> bool" where
  "int_space c = (let n = (of_char c :: nat) in
     (9 \<le> n \<and> n \<le> 13) \<or> n = 32 \<or> n = 133 \<or> n = 160)"

definition is_digit :: "char \<Rightarrow> bool" where
  "is_digit c = (48 \<le> (of_char c :: nat) \<and> (of_char c :: nat) \<le> 57)"

definition digit_val :: "char \<Rightarrow> int" where
  "digit_val c = int (of_char c) - 48"

fun split_sign :: "string \<Rightarrow> bool \<times> string" where
  "split_sign [] = (False, [])"
| "split_sign (c # cs) =
     (if c = CHR ''+'' then (False, cs)
      else if c = CHR ''-'' then (True, cs)
      else (False, c # cs))"

fun digits_ok :: "string \<Rightarrow> bool" where
  "digits_ok [] = False"
| "digits_ok [c] = is_digit c"
| "digits_ok (c # d # cs) =
     (is_digit c \<and> (if d = CHR ''_'' then digits_ok cs else digits_ok (d # cs)))"

definition digits_value :: "string \<Rightarrow> int" where
  "digits_value s = foldl (\<lambda>a c. 10 * a + digit_val c) 0 (filter is_digit s)"

definition py_int :: "string \<Rightarrow> int option" where
  "py_int s =
     (case split_sign (rev (dropWhile int_space (rev (dropWhile int_space s)))) of
        (neg, body) \<Rightarrow>
          if digits_ok body
          then Some (if neg then - digits_value body else digits_value body)
          else None)"

text \<open>\<^verbatim>\<open>s.replace(old, new)\<close>: every occurrence of \<open>old\<close>, found from the left without
  overlap. With an empty \<open>old\<close>, \<open>new\<close> goes before every character and at the end.\<close>

fun replace_from :: "char \<Rightarrow> string \<Rightarrow> string \<Rightarrow> string \<Rightarrow> string" where
  "replace_from p ps new [] = []"
| "replace_from p ps new (c # cs) =
     (if prefix (p # ps) (c # cs) then new @ replace_from p ps new (drop (length ps) cs)
      else c # replace_from p ps new cs)"

definition py_replace :: "string \<Rightarrow> string \<Rightarrow> string \<Rightarrow> string" where
  "py_replace old new s =
     (case old of
        [] \<Rightarrow> new @ concat (map (\<lambda>c. c # new) s)
      | p # ps \<Rightarrow> replace_from p ps new s)"

text \<open>\<^verbatim>\<open>repr\<close> of a string: single quotes unless the string has a single quote and no
  double quote; the quote, the backslash, tab, newline and return are escaped, every other
  character that is not printable is written \<^verbatim>\<open>\xhh\<close>.\<close>

definition printable :: "char \<Rightarrow> bool" where
  "printable c = (let n = (of_char c :: nat) in
     (32 \<le> n \<and> n < 127) \<or> (161 \<le> n \<and> n \<noteq> 173))"

definition hex_digit :: "nat \<Rightarrow> char" where
  "hex_digit n = ''0123456789abcdef'' ! n"

definition escape_char :: "char \<Rightarrow> char \<Rightarrow> string" where
  "escape_char quote c =
     (if c = quote \<or> c = CHR 0x5C then [CHR 0x5C, c]
      else if c = CHR 0x09 then [CHR 0x5C, CHR ''t'']
      else if c = CHR 0x0A then [CHR 0x5C, CHR ''n'']
      else if c = CHR 0x0D then [CHR 0x5C, CHR ''r'']
      else if printable c then [c]
      else [CHR 0x5C, CHR ''x'', hex_digit (of_char c div 16), hex_digit (of_char c mod 16)])"

definition repr_str :: "string \<Rightarrow> string" where
  "repr_str s =
     (let quote = (if CHR 0x27 \<in> set s \<and> CHR 0x22 \<notin> set s then CHR 0x22 else CHR 0x27)
      in quote # concat (map (escape_char quote) s) @ [quote])"

fun join :: "string \<Rightarrow> string list \<Rightarrow> string" where
  "join sep [] = []"
| "join sep [x] = x"
| "join sep (x # y # ys) = x @ sep @ join sep (y # ys)"

fun py_repr :: "pyval \<Rightarrow> string" where
  "py_repr PNone = ''None''"
| "py_repr (PBool b) = (if b then ''True'' else ''False'')"
| "py_repr (PInt i) = show_int i"
| "py_repr (PFloat f) = float_repr f"
| "py_repr (PStr s) = repr_str s"
| "py_repr (PList xs) = ''['' @ join '', '' (map py_repr xs) @ '']''"
| "py_repr (PDict kvs) =
     ''{'' @ join '', '' (map (\<lambda>kv. repr_str (fst kv) @ '': '' @ py_repr (snd kv)) kvs) @ ''}''"

text \<open>\<^verbatim>\<open>str(x)\<close>, which is what an f-string field \<^verbatim>\<open>{x}\<close> inserts.\<close>

fun py_str :: "pyval \<Rightarrow> string" where
  "py_str (PStr s) = s"
| "py_str v = py_repr v"

section \<open>Quest records\<close>

text \<open>
  The dataclass \<^verbatim>\<open>Quest\<close>. Its annotations (\<^verbatim>\<open>quest_id: int\<close>, \<^verbatim>\<open>title: str\<close>, ...)
  are not enforced: a field holds the value the JSON record had under that key.
\<close>

record quest =
  quest_id :: pyval
  title :: pyval
  description :: pyval
  objectives :: pyval
  completion :: pyval
  zone :: pyval
  is_main_story :: pyval

definition tts_text :: "quest \<Rightarrow> pyval" where
  "tts_text q =
     (if truthy (title q)
      then PStr (py_str (title q) @ ''. '' @ py_str (py_or (description q) (PStr [])))
      else py_or (description q) (PStr []))"

definition dict_get :: "(string \<times> pyval) list \<Rightarrow> string \<Rightarrow> pyval \<Rightarrow> pyval" where
  "dict_get d k dflt = (case map_of d k of None \<Rightarrow> dflt | Some v \<Rightarrow> v)"

text \<open>\<^verbatim>\<open>Quest.from_dict(data)\<close> calls \<^verbatim>\<open>data.get\<close>, which only a dict has.\<close>

fun from_dict :: "pyval \<Rightarrow> error + quest" where
  "from_dict (PDict d) =
     Inr \<lparr>quest_id = dict_get d ''quest_id'' (PInt 0),
          title = dict_get d ''title'' (PStr []),
          description = dict_get d ''description'' (PStr []),
          objectives = dict_get d ''objectives'' (PStr []),
          completion = dict_get d ''completion'' (PStr []),
          zone = dict_get d ''zone'' (PStr []),
          is_main_story = dict_get d ''is_main_story'' (PBool False)\<rparr>"
| "from_dict _ = Inl AttributeError"

text \<open>The name of a quest's audio file, \<^verbatim>\<open>f"quest_{quest.quest_id}.mp3"\<close>.\<close>

definition output_name :: "quest \<Rightarrow> string" where
  "output_name q = ''quest_'' @ py_str (quest_id q) @ ''.mp3''"

section \<open>The world outside the program\<close>

text \<open>
  What the program reads is the environment: the JSON files (by the path the program
  asks for), whether the output directory can be created, whether a file of a given name
  can be opened for writing in it, and the answer of the text-to-speech service to the
  \<open>n\<close>-th call, and what sleeping does. An answer is an exception at the call, or a
  stream of chunks that may end in an exception.

  What the program changes is the world: the files of the output directory (entry name
  and content; a name is one path component), the calls made to the service, and the
  lines printed. The log of calls keeps, beside the arguments, the quest id the call was
  made for and what \<^verbatim>\<open>generate_audio\<close> returned after it (\<^verbatim>\<open>None\<close> also when it
  raised). Creating the output
  directory is not recorded as a change: the environment says whether it succeeds.
\<close>

datatype json_file = Missing | Malformed | Decoded pyval

datatype location = ProjectFile string | UserPath string

record api_call =
  call_voice_id :: pyval
  call_text :: string
  call_model_id :: pyval
  call_voice_settings :: pyval

datatype api_result = ApiRaises error | ApiStream "string list" "error option"

type_synonym path = "string \<times> string"

record api_event =
  for_quest :: pyval
  call :: api_call
  returned :: "path option"

datatype msg =
    MsgNoApiKey
  | MsgNoClient
  | MsgNoText pyval
  | MsgQuestError pyval error
  | MsgLoadedExport nat
  | MsgLoaded nat
  | MsgAfterFilter nat
  | MsgNothing
  | MsgDryHeader
  | MsgDryLine pyval pyval
  | MsgDryMore nat
  | MsgStart nat
  | MsgSummary nat nat

record env =
  read_json :: "location \<Rightarrow> json_file"
  mkdir_ok :: bool
  can_open :: "string \<Rightarrow> bool"
  api :: "nat \<Rightarrow> api_call \<Rightarrow> api_result"
  clock_takes :: "real \<Rightarrow> bool"
  os_sleep :: "real \<Rightarrow> error option"

record world =
  files :: "(string \<times> string) list"
  api_log :: "api_event list"
  stdout :: "msg list"

definition say :: "msg \<Rightarrow> world \<Rightarrow> world" where
  "say m w = w\<lparr>stdout := stdout w @ [m]\<rparr>"

definition log_call :: "pyval \<Rightarrow> api_call \<Rightarrow> path option \<Rightarrow> world \<Rightarrow> world" where
  "log_call qid c r w =
     w\<lparr>api_log := api_log w @ [\<lparr>for_quest = qid, call = c, returned = r\<rparr>]\<rparr>"

definition write_file :: "string \<Rightarrow> string \<Rightarrow> world \<Rightarrow> world" where
  "write_file name content w = w\<lparr>files := AList.update name content (files w)\<rparr>"

section \<open>The generator\<close>

record generator =
  config :: pyval
  client :: "pyval option"

text \<open>\<^verbatim>\<open>self.project_root / self.config["paths"][key]\<close>: the entry has to be a string.\<close>

definition project_path :: "pyval \<Rightarrow> string \<Rightarrow> error + string" where
  "project_path cfg key =
     (case subscript2 cfg ''paths'' key of
        Inl err \<Rightarrow> Inl err
      | Inr (PStr p) \<Rightarrow> Inr p
      | Inr _ \<Rightarrow> Inl TypeError)"

definition load_json :: "env \<Rightarrow> location \<Rightarrow> error + pyval" where
  "load_json e loc =
     (case read_json e loc of
        Missing \<Rightarrow> Inl FileNotFoundError
      | Malformed \<Rightarrow> Inl JSONDecodeError
      | Decoded v \<Rightarrow> Inr v)"

definition init_client :: "pyval \<Rightarrow> world \<Rightarrow> (error + pyval option) \<times> world" where
  "init_client cfg w =
     (case subscript2 cfg ''elevenlabs'' ''api_key'' of
        Inl err \<Rightarrow> (Inl err, w)
      | Inr api_key \<Rightarrow>
          if api_key = PStr ''YOUR_ELEVENLABS_API_KEY_HERE''
          then (Inr None, say MsgNoApiKey w)
          else (Inr (Some api_key), w))"

definition new_generator :: "env \<Rightarrow> string option \<Rightarrow> world \<Rightarrow> (error + generator) \<times> world" where
  "new_generator e config_path w =
     (let loc = (case config_path of
                   None \<Rightarrow> ProjectFile ''config/tts_config.json''
                 | Some p \<Rightarrow> if p = [] then ProjectFile ''config/tts_config.json'' else UserPath p)
      in case load_json e loc of
           Inl err \<Rightarrow> (Inl err, w)
         | Inr cfg \<Rightarrow>
             (case init_client cfg w of
                (Inl err, w') \<Rightarrow> (Inl err, w')
              | (Inr c, w') \<Rightarrow> (Inr \<lparr>config = cfg, client = c\<rparr>, w')))"

text \<open>Iterating a decoded JSON value, as \<^verbatim>\<open>for q in data\<close> does.\<close>

fun py_iter :: "pyval \<Rightarrow> error + pyval list" where
  "py_iter (PList xs) = Inr xs"
| "py_iter (PDict kvs) = Inr (map (\<lambda>kv. PStr (fst kv)) kvs)"
| "py_iter (PStr s) = Inr (map (\<lambda>c. PStr [c]) s)"
| "py_iter _ = Inl TypeError"

fun map_err :: "('a \<Rightarrow> error + 'b) \<Rightarrow> 'a list \<Rightarrow> error + 'b list" where
  "map_err f [] = Inr []"
| "map_err f (x # xs) =
     (case f x of
        Inl err \<Rightarrow> Inl err
      | Inr y \<Rightarrow> (case map_err f xs of Inl err \<Rightarrow> Inl err | Inr ys \<Rightarrow> Inr (y # ys)))"

definition quests_of :: "pyval \<Rightarrow> error + quest list" where
  "quests_of data = (case py_iter data of Inl err \<Rightarrow> Inl err | Inr xs \<Rightarrow> map_err from_dict xs)"

definition load_quests :: "generator \<Rightarrow> env \<Rightarrow> string option \<Rightarrow> error + quest list" where
  "load_quests g e quest_file =
     (case (case quest_file of
              None \<Rightarrow> map_sum id ProjectFile (project_path (config g) ''quests_json'')
            | Some p \<Rightarrow>
                if p = [] then map_sum id ProjectFile (project_path (config g) ''quests_json'')
                else Inr (UserPath p)) of
        Inl err \<Rightarrow> Inl err
      | Inr quest_path \<Rightarrow>
          (case load_json e quest_path of Inl err \<Rightarrow> Inl err | Inr data \<Rightarrow> quests_of data))"

definition load_batch_export :: "generator \<Rightarrow> env \<Rightarrow> error + pyval" where
  "load_batch_export g e =
     (case project_path (config g) ''batch_export'' of
        Inl err \<Rightarrow> Inl err
      | Inr export_path \<Rightarrow> load_json e (ProjectFile export_path))"

subsection \<open>Scanning the output directory\<close>

text \<open>
  \<^verbatim>\<open>audio_dir.glob("quest_*.mp3")\<close> on an entry name (case-sensitive, as on POSIX), the
  \<^verbatim>\<open>stem\<close> of a name (the name up to its last dot, unless that dot is first or last),
  and the id \<^verbatim>\<open>int(file.stem.replace("quest_", ""))\<close>; a \<^verbatim>\<open>ValueError\<close> of \<^verbatim>\<open>int\<close> is
  passed over.
\<close>

definition glob_match :: "string \<Rightarrow> bool" where
  "glob_match name = (prefix ''quest_'' name \<and> suffix ''.mp3'' name \<and> 10 \<le> length name)"

definition py_stem :: "string \<Rightarrow> string" where
  "py_stem name =
     (let i = length name - length (takeWhile (\<lambda>c. c \<noteq> CHR ''.'') (rev name)) - 1
      in if CHR ''.'' \<in> set name \<and> 0 < i \<and> i < length name - 1 then take i name else name)"

definition existing_id :: "string \<Rightarrow> int option" where
  "existing_id name =
     (if glob_match name then py_int (py_replace ''quest_'' [] (py_stem name)) else None)"

definition existing_ids :: "string list \<Rightarrow> int set" where
  "existing_ids names = set (List.map_filter existing_id names)"

definition get_existing_audio_files :: "generator \<Rightarrow> env \<Rightarrow> world \<Rightarrow> error + int set" where
  "get_existing_audio_files g e w =
     (case project_path (config g) ''audio_output'' of
        Inl err \<Rightarrow> Inl err
      | Inr audio_dir \<Rightarrow>
          if \<not> mkdir_ok e then Inl OSError
          else Inr (existing_ids (map fst (files w))))"

subsection \<open>One quest\<close>

text \<open>Lines 140 to 143: the voice id of the profile, or the default one.\<close>

definition resolve_voice :: "pyval \<Rightarrow> string option \<Rightarrow> error + pyval" where
  "resolve_voice cfg voice_profile =
     (case voice_profile of
        None \<Rightarrow> subscript2 cfg ''elevenlabs'' ''voice_id''
      | Some p \<Rightarrow>
          if p = [] then subscript2 cfg ''elevenlabs'' ''voice_id''
          else (case subscript cfg ''voice_profiles'' of
                  Inl err \<Rightarrow> Inl err
                | Inr table \<Rightarrow>
                    (case contains table p of
                       Inl err \<Rightarrow> Inl err
                     | Inr True \<Rightarrow>
                         (case subscript table p of
                            Inl err \<Rightarrow> Inl err
                          | Inr entry \<Rightarrow> subscript entry ''voice_id'')
                     | Inr False \<Rightarrow> subscript2 cfg ''elevenlabs'' ''voice_id'')))"

text \<open>
  Lines 150 to 168, the \<^verbatim>\<open>try\<close> block: the two remaining arguments are looked up,
  the service is called, the file is opened (created or emptied) and the chunks are
  written. An \<^verbatim>\<open>Exception\<close> raised there is printed and turned into \<^verbatim>\<open>None\<close>
  (line 166, \<^verbatim>\<open>except Exception\<close>); anything else raised there leaves the function.
\<close>

definition except_exception :: "pyval \<Rightarrow> error \<Rightarrow> world \<Rightarrow> (error + path option) \<times> world" where
  "except_exception qid err w =
     (if caught err then (Inr None, say (MsgQuestError qid err) w) else (Inl err, w))"

definition convert_and_save ::
  "generator \<Rightarrow> env \<Rightarrow> quest \<Rightarrow> pyval \<Rightarrow> string \<Rightarrow> path \<Rightarrow> world
     \<Rightarrow> (error + path option) \<times> world" where
  "convert_and_save g e q voice txt output_path w =
     (case subscript2 (config g) ''elevenlabs'' ''model_id'' of
        Inl err \<Rightarrow> except_exception (quest_id q) err w
      | Inr model \<Rightarrow>
     (case subscript2 (config g) ''elevenlabs'' ''voice_settings'' of
        Inl err \<Rightarrow> except_exception (quest_id q) err w
      | Inr settings \<Rightarrow>
     (let c = \<lparr>call_voice_id = voice, call_text = txt,
                call_model_id = model, call_voice_settings = settings\<rparr>
      in case api e (length (api_log w)) c of
           ApiRaises err \<Rightarrow>
             except_exception (quest_id q) err (log_call (quest_id q) c None w)
         | ApiStream chunks broke \<Rightarrow>
             if \<not> can_open e (snd output_path)
             then except_exception (quest_id q) OSError (log_call (quest_id q) c None w)
             else (case broke of
                     Some err \<Rightarrow>
                       except_exception (quest_id q) err
                         (log_call (quest_id q) c None
                            (write_file (snd output_path) (concat chunks) w))
                   | None \<Rightarrow>
                       (Inr (Some output_path),
                        log_call (quest_id q) c (Some output_path)
                          (write_file (snd output_path) (concat chunks) w))))))"

definition generate_audio ::
  "generator \<Rightarrow> env \<Rightarrow> quest \<Rightarrow> string option \<Rightarrow> world \<Rightarrow> (error + path option) \<times> world" where
  "generate_audio g e q voice_profile w =
     (case client g of
        None \<Rightarrow> (Inr None, say MsgNoClient w)
      | Some _ \<Rightarrow>
     (case tts_text q of
        PStr txt \<Rightarrow>
          if py_strip txt = [] then (Inr None, say (MsgNoText (quest_id q)) w)
          else (case resolve_voice (config g) voice_profile of
                  Inl err \<Rightarrow> (Inl err, w)
                | Inr voice \<Rightarrow>
                    (case project_path (config g) ''audio_output'' of
                       Inl err \<Rightarrow> (Inl err, w)
                     | Inr audio_dir \<Rightarrow>
                         if \<not> mkdir_ok e then (Inl OSError, w)
                         else convert_and_save g e q voice txt (audio_dir, output_name q) w))
      | _ \<Rightarrow> (Inl AttributeError, w)))"

subsection \<open>The batch\<close>

text \<open>
  The delay is a float: a number of seconds, an infinity or not a number.
  \<^verbatim>\<open>time.sleep\<close> refuses what is not a number (\<^verbatim>\<open>ValueError\<close>), what the interpreter's
  clock cannot hold, an infinity among it (\<^verbatim>\<open>OverflowError\<close>), and then what is negative
  (\<^verbatim>\<open>ValueError\<close>). The clock counts nanoseconds in 64 bits, so it holds no delay of
  \<open>10\<^sup>1\<^sup>0\<close> seconds or more in size; where exactly below that it stops depends on the
  interpreter's rounding and is the environment's to say, as is what the operating system
  does with a delay that is accepted: it sleeps and returns, or raises.
\<close>

datatype pydelay = Seconds real | Infinity | NotANumber

definition time_sleep :: "env \<Rightarrow> pydelay \<Rightarrow> error option" where
  "time_sleep e d =
     (case d of
        NotANumber \<Rightarrow> Some ValueError
      | Infinity \<Rightarrow> Some OverflowError
      | Seconds r \<Rightarrow>
          if 10 ^ 10 \<le> \<bar>r\<bar> \<or> \<not> clock_takes e r then Some OverflowError
          else if r < 0 then Some ValueError
          else os_sleep e r)"

record options =
  quest_ids :: "int list option"
  from_export :: bool
  skip_existing :: bool
  dry_run :: bool
  voice_profile :: "string option"
  delay :: pydelay

datatype outcome = Raised error | NothingToDo | DryRunDone | Summary nat nat

text \<open>Lines 181 to 192: the quests of the export, or those of the quest file, narrowed to
  the requested ids when there are any.\<close>

definition load_stage ::
  "generator \<Rightarrow> env \<Rightarrow> options \<Rightarrow> world \<Rightarrow> (error + quest list) \<times> world" where
  "load_stage g e opts w =
     (if from_export opts
      then (case load_batch_export g e of
              Inl err \<Rightarrow> (Inl err, w)
            | Inr export_data \<Rightarrow>
                (case quests_of export_data of
                   Inl err \<Rightarrow> (Inl err, w)
                 | Inr quests \<Rightarrow> (Inr quests, say (MsgLoadedExport (length quests)) w)))
      else (case load_quests g e None of
              Inl err \<Rightarrow> (Inl err, w)
            | Inr all_quests \<Rightarrow>
                (let quests =
                   (case quest_ids opts of
                      None \<Rightarrow> all_quests
                    | Some ids \<Rightarrow>
                        if ids = [] then all_quests
                        else filter (\<lambda>q. in_int_list (quest_id q) ids) all_quests)
                 in (Inr quests, say (MsgLoaded (length quests)) w))))"

text \<open>Lines 194 to 198: \<^verbatim>\<open>[q for q in quests if q.quest_id not in existing]\<close>.\<close>

fun drop_existing :: "int set \<Rightarrow> quest list \<Rightarrow> error + quest list" where
  "drop_existing existing [] = Inr []"
| "drop_existing existing (q # qs) =
     (case in_int_set (quest_id q) existing of
        Inl err \<Rightarrow> Inl err
      | Inr found \<Rightarrow>
          (case drop_existing existing qs of
             Inl err \<Rightarrow> Inl err
           | Inr rest \<Rightarrow> Inr (if found then rest else q # rest)))"

definition filter_stage ::
  "generator \<Rightarrow> env \<Rightarrow> options \<Rightarrow> quest list \<Rightarrow> world \<Rightarrow> (error + quest list) \<times> world" where
  "filter_stage g e opts quests w =
     (if skip_existing opts
      then (case get_existing_audio_files g e w of
              Inl err \<Rightarrow> (Inl err, w)
            | Inr existing \<Rightarrow>
                (case drop_existing existing quests of
                   Inl err \<Rightarrow> (Inl err, w)
                 | Inr quests' \<Rightarrow> (Inr quests', say (MsgAfterFilter (length quests')) w)))
      else (Inr quests, w))"

text \<open>Lines 204 to 211: the preview. \<^verbatim>\<open>q.title[:50]\<close> needs a title that can be sliced
  (a dict refuses the slice with \<^verbatim>\<open>TypeError\<close>, from Python 3.12 on with \<^verbatim>\<open>KeyError\<close>).\<close>

fun slice50 :: "pyval \<Rightarrow> error + pyval" where
  "slice50 (PStr s) = Inr (PStr (take 50 s))"
| "slice50 (PList xs) = Inr (PList (take 50 xs))"
| "slice50 _ = Inl TypeError"

fun dry_lines :: "quest list \<Rightarrow> world \<Rightarrow> error option \<times> world" where
  "dry_lines [] w = (None, w)"
| "dry_lines (q # qs) w =
     (case slice50 (title q) of
        Inl err \<Rightarrow> (Some err, w)
      | Inr t \<Rightarrow> dry_lines qs (say (MsgDryLine (quest_id q) t) w))"

text \<open>Lines 216 to 228: the loop, with \<^verbatim>\<open>time.sleep(delay)\<close> after every quest.\<close>

fun batch_loop ::
  "generator \<Rightarrow> env \<Rightarrow> string option \<Rightarrow> pydelay \<Rightarrow> quest list \<Rightarrow> nat \<Rightarrow> nat \<Rightarrow> world
     \<Rightarrow> (error + nat \<times> nat) \<times> world" where
  "batch_loop g e vp d [] successful failed w = (Inr (successful, failed), w)"
| "batch_loop g e vp d (q # qs) successful failed w =
     (case generate_audio g e q vp w of
        (Inl err, w') \<Rightarrow> (Inl err, w')
      | (Inr result, w') \<Rightarrow>
          (case time_sleep e d of
             Some err \<Rightarrow> (Inl err, w')
           | None \<Rightarrow>
               (case result of
                  Some p \<Rightarrow> batch_loop g e vp d qs (Suc successful) failed w'
                | None \<Rightarrow> batch_loop g e vp d qs successful (Suc failed) w')))"

definition process_stage ::
  "generator \<Rightarrow> env \<Rightarrow> options \<Rightarrow> quest list \<Rightarrow> world \<Rightarrow> outcome \<times> world" where
  "process_stage g e opts quests w =
     (if quests = [] then (NothingToDo, say MsgNothing w)
      else if dry_run opts
      then (case dry_lines (take 20 quests) (say MsgDryHeader w) of
              (Some err, w') \<Rightarrow> (Raised err, w')
            | (None, w') \<Rightarrow>
                (DryRunDone,
                 if 20 < length quests then say (MsgDryMore (length quests - 20)) w' else w'))
      else (case batch_loop g e (voice_profile opts) (delay opts) quests 0 0
                   (say (MsgStart (length quests)) w) of
              (Inl err, w') \<Rightarrow> (Raised err, w')
            | (Inr (successful, failed), w') \<Rightarrow>
                (Summary successful failed, say (MsgSummary successful failed) w')))"

text \<open>The quests left after line 198, and \<^verbatim>\<open>run_batch\<close> as a whole.\<close>

definition to_process ::
  "generator \<Rightarrow> env \<Rightarrow> options \<Rightarrow> world \<Rightarrow> (error + quest list) \<times> world" where
  "to_process g e opts w =
     (case load_stage g e opts w of
        (Inl err, w1) \<Rightarrow> (Inl err, w1)
      | (Inr quests, w1) \<Rightarrow> filter_stage g e opts quests w1)"

definition run_batch :: "generator \<Rightarrow> env \<Rightarrow> options \<Rightarrow> world \<Rightarrow> outcome \<times> world" where
  "run_batch g e opts w =
     (case to_process g e opts w of
        (Inl err, w2) \<Rightarrow> (Raised err, w2)
      | (Inr quests, w2) \<Rightarrow> process_stage g e opts quests w2)"

section \<open>Notions used in the statements\<close>

text \<open>The entry names of the output directory.\<close>

definition names :: "world \<Rightarrow> string set" where
  "names w = fst ` set (files w)"

text \<open>A derived text that is a string and empty after \<^verbatim>\<open>strip()\<close>.\<close>

definition blank_text :: "pyval \<Rightarrow> bool" where
  "blank_text v = (case v of PStr s \<Rightarrow> py_strip s = [] | _ \<Rightarrow> False)"

text \<open>
  What every call to the service recorded in the log satisfies, when it was made for quest
  \<open>q\<close> with profile \<open>vp\<close>: it carries the quest's id and its derived text, that text is
  not blank, the voice id is the resolved one, and if \<^verbatim>\<open>generate_audio\<close> returned a
  path after it, the path is the quest's file and the file is in the directory \<open>w'\<close>.
\<close>

definition fresh_event :: "generator \<Rightarrow> string option \<Rightarrow> quest \<Rightarrow> world \<Rightarrow> api_event \<Rightarrow> bool" where
  "fresh_event g vp q w' ev =
     (for_quest ev = quest_id q \<and> tts_text q = PStr (call_text (call ev)) \<and>
      py_strip (call_text (call ev)) \<noteq> [] \<and>
      resolve_voice (config g) vp = Inr (call_voice_id (call ev)) \<and>
      (case returned ev of None \<Rightarrow> True
       | Some p \<Rightarrow> snd p = output_name q \<and> output_name q \<in> names w'))"

section \<open>Example data\<close>

text \<open>
  The configuration of the specification's example, completed with the entries the
  program reads; one quest file with the example's record, and one that also holds a
  record whose text is blank.
\<close>

definition example_config :: pyval where
  "example_config = PDict
     [(''elevenlabs'',
         PDict [(''api_key'', PStr ''sk-1''), (''voice_id'', PStr ''D0''),
                (''model_id'', PStr ''eleven_multilingual_v2''),
                (''voice_settings'', PDict [(''use_speaker_boost'', PBool True)])]),
      (''voice_profiles'', PDict [(''epic_narrator'', PDict [(''voice_id'', PStr ''X1'')])]),
      (''paths'',
         PDict [(''quests_json'', PStr ''data/quests.json''),
                (''batch_export'', PStr ''data/batch_export.json''),
                (''audio_output'', PStr ''audio'')])]"

definition example_generator :: generator where
  "example_generator = \<lparr>config = example_config, client = Some (PStr ''sk-1'')\<rparr>"

definition example_call :: api_call where
  "example_call =
     \<lparr>call_voice_id = PStr ''X1'', call_text = ''A. B'',
      call_model_id = PStr ''eleven_multilingual_v2'',
      call_voice_settings = PDict [(''use_speaker_boost'', PBool True)]\<rparr>"

definition example_records :: pyval where
  "example_records =
     PList [PDict [(''quest_id'', PInt 1), (''title'', PStr ''A''), (''description'', PStr ''B'')]]"

definition blank_records :: pyval where
  "blank_records =
     PList [PDict [(''quest_id'', PInt 2), (''title'', PStr []), (''description'', PStr ''   '')],
            PDict [(''quest_id'', PInt 1), (''title'', PStr ''A''), (''description'', PStr ''B'')]]"

definition env_with :: "pyval \<Rightarrow> env" where
  "env_with records =
     \<lparr>read_json = (\<lambda>loc. if loc = ProjectFile ''data/quests.json'' then Decoded records else Missing),
      mkdir_ok = True,
      can_open = (\<lambda>name. True),
      api = (\<lambda>n c. ApiStream [''ID3'', ''abc''] None),
      clock_takes = (\<lambda>r. \<bar>r\<bar> < 9223372036),
      os_sleep = (\<lambda>r. None)\<rparr>"

definition example_options :: options where
  "example_options =
     \<lparr>quest_ids = None, from_export = False, skip_existing = True, dry_run = False,
      voice_profile = Some ''epic_narrator'', delay = Seconds (1 / 2)\<rparr>"

definition empty_world :: world where
  "empty_world = \<lparr>files = [], api_log = [], stdout = []\<rparr>"

text \<open>A configuration whose profile table has the empty string as a key, and the
  example's record as a quest.\<close>

definition empty_key_config :: pyval where
  "empty_key_config = PDict
     [(''elevenlabs'',
         PDict [(''api_key'', PStr ''sk-1''), (''voice_id'', PStr ''D0''),
                (''model_id'', PStr ''eleven_multilingual_v2''),
                (''voice_settings'', PDict [(''use_speaker_boost'', PBool True)])]),
      (''voice_profiles'', PDict [([], PDict [(''voice_id'', PStr ''X1'')])]),
      (''paths'', PDict [(''audio_output'', PStr ''audio'')])]"

definition example_quest :: quest where
  "example_quest =
     \<lparr>quest_id = PInt 1, title = PStr ''A'', description = PStr ''B'', objectives = PStr [],
      completion = PStr [], zone = PStr [], is_main_story = PBool False\<rparr>"


definition blank_quest :: quest where
  "blank_quest =
     \<lparr>quest_id = PInt 2, title = PStr [], description = PStr ''   '', objectives = PStr [],
      completion = PStr [], zone = PStr [], is_main_story = PBool False\<rparr>"

definition spaces_quest :: quest where
  "spaces_quest =
     \<lparr>quest_id = PInt 3, title = PStr ''  '', description = PStr [], objectives = PStr [],
      completion = PStr [], zone = PStr [], is_main_story = PBool False\<rparr>"

text \<open>The calls a run made, when it took the world from \<open>w\<close> to \<open>w'\<close>.\<close>

definition calls_of_run :: "world \<Rightarrow> world \<Rightarrow> api_event list" where
  "calls_of_run w w' = drop (length (api_log w)) (api_log w')"

text \<open>An output directory with an audio file, a file of another kind and an audio file
  whose name holds no id.\<close>

definition used_world :: world where
  "used_world =
     \<lparr>files = [(''quest_1.mp3'', ''ID3''), (''notes.txt'', ''x''), (''quest_x.mp3'', [])],
      api_log = [], stdout = []\<rparr>"


section \<open>Basic facts\<close>

lemma say_fields [simp]:
  "files (say m w) = files w" "api_log (say m w) = api_log w" "stdout (say m w) = stdout w @ [m]"
  by (simp_all add: say_def)

lemma log_call_fields [simp]:
  "files (log_call qid c r w) = files w"
  "api_log (log_call qid c r w) = api_log w @ [\<lparr>for_quest = qid, call = c, returned = r\<rparr>]"
  "stdout (log_call qid c r w) = stdout w"
  by (simp_all add: log_call_def)

lemma write_file_fields [simp]:
  "files (write_file n c w) = AList.update n c (files w)"
  "api_log (write_file n c w) = api_log w"
  "stdout (write_file n c w) = stdout w"
  by (simp_all add: write_file_def)

lemma digit_chars:
  "digit_char 0 = CHR ''0''" "digit_char 1 = CHR ''1''" "digit_char 2 = CHR ''2''"
  "digit_char 3 = CHR ''3''" "digit_char 4 = CHR ''4''" "digit_char 5 = CHR ''5''"
  "digit_char 6 = CHR ''6''" "digit_char 7 = CHR ''7''" "digit_char 8 = CHR ''8''"
  "digit_char 9 = CHR ''9''" "digit_char (Suc 0) = CHR ''1''"
  by code_simp+

lemma show_int_0: "show_int 0 = ''0''"
  by (simp add: show_int_def show_nat.simps digit_chars)

lemma names_say [simp]: "names (say m w) = names w"
  by (simp add: names_def say_def)

lemmas example_defs =
  example_generator_def example_config_def example_call_def example_records_def
  blank_records_def env_with_def example_options_def empty_world_def

lemmas run_defs =
  run_batch_def to_process_def load_stage_def load_quests_def load_batch_export_def
  project_path_def subscript2_def load_json_def quests_of_def dict_get_def filter_stage_def
  get_existing_audio_files_def existing_ids_def existing_id_def List.map_filter_def
  in_int_set_def in_int_list_def equals_member_def process_stage_def generate_audio_def
  tts_text_def py_or_def py_strip_def is_space_def resolve_voice_def convert_and_save_def
  except_exception_def time_sleep_def
  output_name_def show_int_def show_nat.simps digit_chars Let_def

lemma time_sleep_refuses:
  "time_sleep e NotANumber = Some ValueError"
  "time_sleep e Infinity = Some OverflowError"
  "10 ^ 10 \<le> \<bar>r\<bar> \<Longrightarrow> time_sleep e (Seconds r) = Some OverflowError"
  "\<bar>r\<bar> < 10 ^ 10 \<Longrightarrow> clock_takes e r \<Longrightarrow> r < 0 \<Longrightarrow> time_sleep e (Seconds r) = Some ValueError"
  by (simp_all add: time_sleep_def)

lemma huge_delay_run:
  "run_batch example_generator (env_with example_records)
       (example_options\<lparr>delay := Seconds (10 ^ 20)\<rparr>) empty_world =
     (Raised OverflowError,
      \<lparr>files = [(''quest_1.mp3'', ''ID3abc'')],
       api_log = [\<lparr>for_quest = PInt 1, call = example_call,
                   returned = Some (''audio'', ''quest_1.mp3'')\<rparr>],
       stdout = [MsgLoaded 1, MsgAfterFilter 1, MsgStart 1]\<rparr>)"
  by (simp add: run_defs example_defs say_def log_call_def write_file_def)

section \<open>Loading a record\<close>

text \<open>
  C8. \<^verbatim>\<open>Quest.from_dict\<close> returns a quest for every dictionary: each field is the value
  under its key, or the default when the key is missing (0 for the id, the empty string
  for the text fields, \<^verbatim>\<open>False\<close> for the main-story flag). A record without the key
  \<^verbatim>\<open>quest_id\<close> gets the id 0 and the file name \<^verbatim>\<open>quest_0.mp3\<close>, so any two such
  records share their file name.
\<close>

theorem from_dict_total:
  "\<exists>q. from_dict (PDict d) = Inr q \<and>
       quest_id q = (case map_of d ''quest_id'' of None \<Rightarrow> PInt 0 | Some v \<Rightarrow> v) \<and>
       title q = (case map_of d ''title'' of None \<Rightarrow> PStr [] | Some v \<Rightarrow> v) \<and>
       description q = (case map_of d ''description'' of None \<Rightarrow> PStr [] | Some v \<Rightarrow> v) \<and>
       objectives q = (case map_of d ''objectives'' of None \<Rightarrow> PStr [] | Some v \<Rightarrow> v) \<and>
       completion q = (case map_of d ''completion'' of None \<Rightarrow> PStr [] | Some v \<Rightarrow> v) \<and>
       zone q = (case map_of d ''zone'' of None \<Rightarrow> PStr [] | Some v \<Rightarrow> v) \<and>
       is_main_story q = (case map_of d ''is_main_story'' of None \<Rightarrow> PBool False | Some v \<Rightarrow> v) \<and>
       (''quest_id'' \<notin> set (map fst d) \<longrightarrow>
          quest_id q = PInt 0 \<and> output_name q = ''quest_0.mp3'' \<and>
          (\<forall>d'. ''quest_id'' \<notin> set (map fst d') \<longrightarrow>
                (\<exists>q'. from_dict (PDict d') = Inr q' \<and> output_name q' = output_name q)))"
proof -
  have missing: "dict_get k ''quest_id'' (PInt 0) = PInt 0"
    if "''quest_id'' \<notin> set (map fst k)" for k
  proof -
    from that have "map_of k ''quest_id'' = None" by (simp add: map_of_eq_None_iff)
    then show ?thesis by (simp add: dict_get_def)
  qed
  have name0: "output_name r = ''quest_0.mp3''" if "quest_id r = PInt 0" for r
    using that by (simp add: output_name_def show_int_0)
  have other: "\<exists>q'. from_dict (PDict d') = Inr q' \<and> output_name q' = ''quest_0.mp3''"
    if "''quest_id'' \<notin> set (map fst d')" for d'
    using missing [OF that] by (simp add: name0)
  obtain q where q: "from_dict (PDict d) = Inr q"
    by simp
  then have id: "quest_id q = dict_get d ''quest_id'' (PInt 0)"
    by auto
  have zero: "quest_id q = PInt 0 \<and> output_name q = ''quest_0.mp3''"
    if "''quest_id'' \<notin> set (map fst d)"
    using missing [OF that] id name0 by simp
  from q have fields:
    "quest_id q = (case map_of d ''quest_id'' of None \<Rightarrow> PInt 0 | Some v \<Rightarrow> v)"
    "title q = (case map_of d ''title'' of None \<Rightarrow> PStr [] | Some v \<Rightarrow> v)"
    "description q = (case map_of d ''description'' of None \<Rightarrow> PStr [] | Some v \<Rightarrow> v)"
    "objectives q = (case map_of d ''objectives'' of None \<Rightarrow> PStr [] | Some v \<Rightarrow> v)"
    "completion q = (case map_of d ''completion'' of None \<Rightarrow> PStr [] | Some v \<Rightarrow> v)"
    "zone q = (case map_of d ''zone'' of None \<Rightarrow> PStr [] | Some v \<Rightarrow> v)"
    "is_main_story q = (case map_of d ''is_main_story'' of None \<Rightarrow> PBool False | Some v \<Rightarrow> v)"
    by (auto simp: dict_get_def)
  show ?thesis
  proof (rule exI [of _ q], intro conjI impI allI)
    fix d' :: "(string \<times> pyval) list"
    assume "''quest_id'' \<notin> set (map fst d)" "''quest_id'' \<notin> set (map fst d')"
    then show "\<exists>q'. from_dict (PDict d') = Inr q' \<and> output_name q' = output_name q"
      using other [of d'] zero by simp
  qed (use q fields zero in simp_all)
qed

theorem from_dict_total_witness:
  "from_dict (PDict [(''title'', PStr ''A''), (''zone'', PNone)]) =
     Inr \<lparr>quest_id = PInt 0, title = PStr ''A'', description = PStr [], objectives = PStr [],
          completion = PStr [], zone = PNone, is_main_story = PBool False\<rparr> \<and>
   output_name \<lparr>quest_id = PInt 0, title = PStr ''A'', description = PStr [], objectives = PStr [],
          completion = PStr [], zone = PNone, is_main_story = PBool False\<rparr> = ''quest_0.mp3'' \<and>
   (\<exists>q'. from_dict (PDict []) = Inr q' \<and> output_name q' = ''quest_0.mp3'')"
  using from_dict_total [of "[(''title'', PStr ''A''), (''zone'', PNone)]"]
  by (simp add: dict_get_def output_name_def show_int_0)

section \<open>Effects of one quest, of the loop and of the stages\<close>

lemma subscript_caught: "subscript x k = Inl err \<Longrightarrow> caught err"
  by (cases x) (auto split: option.splits)

lemma subscript2_caught: "subscript2 x a b = Inl err \<Longrightarrow> caught err"
  by (auto simp: subscript2_def split: sum.splits dest: subscript_caught)

lemma except_exception_cases:
  assumes "except_exception qid err w = (r, w')"
  shows "api_log w' = api_log w \<and> files w' = files w \<and>
         (if caught err then r = Inr None else r = Inl err)"
  using assms by (auto simp: except_exception_def split: if_splits)

lemma convert_and_save_cases:
  assumes "convert_and_save g e q voice txt p w = (r, w')"
  shows "(r = Inr None \<and> api_log w' = api_log w \<and> files w' = files w) \<or>
         (\<exists>c ret. api_log w' = api_log w @ [\<lparr>for_quest = quest_id q, call = c, returned = ret\<rparr>] \<and>
              call_voice_id c = voice \<and> call_text c = txt \<and>
              (r = Inr ret \<or> ret = None \<and> (\<exists>err. r = Inl err)) \<and>
              (files w' = files w \<and> ret = None \<or>
               (\<exists>content. files w' = AList.update (snd p) content (files w) \<and>
                  (ret = None \<or> ret = Some p))))"
proof (cases "\<exists>model settings. subscript2 (config g) ''elevenlabs'' ''model_id'' = Inr model \<and>
    subscript2 (config g) ''elevenlabs'' ''voice_settings'' = Inr settings")
  case False
  then obtain err where "caught err" "except_exception (quest_id q) err w = (r, w')"
    using assms subscript2_caught
    by (fastforce simp: convert_and_save_def split: sum.splits)
  from except_exception_cases [OF this(2)] this(1) show ?thesis by simp
next
  case True
  then obtain model settings where
    ms: "subscript2 (config g) ''elevenlabs'' ''model_id'' = Inr model"
      "subscript2 (config g) ''elevenlabs'' ''voice_settings'' = Inr settings"
    by blast
  define c where "c = \<lparr>call_voice_id = voice, call_text = txt,
      call_model_id = model, call_voice_settings = settings\<rparr>"
  have c: "call_voice_id c = voice" "call_text c = txt" by (simp_all add: c_def)
  have failed: ?thesis
    if "except_exception (quest_id q) err (log_call (quest_id q) c None v) = (r, w')"
      and "files v = files w \<or> (\<exists>content. files v = AList.update (snd p) content (files w))"
      and "api_log v = api_log w" for err v
  proof -
    from except_exception_cases [OF that(1)]
    have "api_log w' = api_log w @ [\<lparr>for_quest = quest_id q, call = c, returned = None\<rparr>]"
      "files w' = files v" "r = Inr None \<or> (\<exists>err. r = Inl err)"
      using that(3) by (auto split: if_splits)
    with that(2) c show ?thesis by auto
  qed
  show ?thesis
  proof (cases "api e (length (api_log w)) c")
    case (ApiRaises err)
    with assms ms have "except_exception (quest_id q) err (log_call (quest_id q) c None w) = (r, w')"
      by (simp add: convert_and_save_def c_def)
    then show ?thesis by (rule failed) simp_all
  next
    case (ApiStream chunks broke)
    show ?thesis
    proof (cases "can_open e (snd p)")
      case False
      with assms ms ApiStream
      have "except_exception (quest_id q) OSError (log_call (quest_id q) c None w) = (r, w')"
        by (simp add: convert_and_save_def c_def)
      then show ?thesis by (rule failed) simp_all
    next
      case True
      show ?thesis
      proof (cases broke)
        case (Some err)
        with assms ms ApiStream True
        have "except_exception (quest_id q) err
            (log_call (quest_id q) c None (write_file (snd p) (concat chunks) w)) = (r, w')"
          by (simp add: convert_and_save_def c_def)
        then show ?thesis by (rule failed) auto
      next
        case None
        with assms ms ApiStream True have "r = Inr (Some p)"
          "api_log w' = api_log w @ [\<lparr>for_quest = quest_id q, call = c, returned = Some p\<rparr>]"
          "files w' = AList.update (snd p) (concat chunks) (files w)"
          by (auto simp: convert_and_save_def c_def)
        with c show ?thesis by auto
      qed
    qed
  qed
qed

lemma generate_audio_cases:
  assumes "generate_audio g e q vp w = (res, w')"
  shows "(api_log w' = api_log w \<and> files w' = files w \<and> (\<forall>p. res \<noteq> Inr (Some p))) \<or>
         (\<exists>ev. api_log w' = api_log w @ [ev] \<and> fresh_event g vp q w' ev \<and>
               (res = Inr (returned ev) \<or> returned ev = None \<and> (\<exists>err. res = Inl err)) \<and>
               (files w' = files w \<or> (\<exists>content. files w' = AList.update (output_name q) content (files w))))"
proof (cases "client g")
  case None
  with assms show ?thesis by (auto simp: generate_audio_def)
next
  case (Some k)
  show ?thesis
  proof (cases "tts_text q")
    case (PStr t)
    show ?thesis
    proof (cases "py_strip t = []")
      case True
      with assms Some PStr show ?thesis by (auto simp: generate_audio_def)
    next
      case nonblank: False
      show ?thesis
      proof (cases "resolve_voice (config g) vp")
        case (Inl err)
        with assms Some PStr nonblank show ?thesis by (auto simp: generate_audio_def)
      next
        case (Inr voice)
        show ?thesis
        proof (cases "project_path (config g) ''audio_output''")
          case (Inl err)
          with assms Some PStr nonblank Inr show ?thesis by (auto simp: generate_audio_def)
        next
          case dir: (Inr d)
          show ?thesis
          proof (cases "mkdir_ok e")
            case False
            with assms Some PStr nonblank Inr dir show ?thesis
              by (auto simp: generate_audio_def)
          next
            case True
            with assms Some PStr nonblank Inr dir
            have cs: "convert_and_save g e q voice t (d, output_name q) w = (res, w')"
              by (auto simp: generate_audio_def)
            from convert_and_save_cases [OF cs] PStr nonblank Inr
            show ?thesis
              by (auto simp: fresh_event_def names_def AList.dom_update)
          qed
        qed
      qed
    qed
  qed (use assms Some in \<open>auto simp: generate_audio_def\<close>)
qed

lemma names_update: "names w \<subseteq> fst ` set (AList.update n c (files w))"
  by (auto simp: names_def AList.dom_update)

lemma generate_audio_names:
  assumes "generate_audio g e q vp w = (res, w')"
  shows "names w \<subseteq> names w'"
  using generate_audio_cases [OF assms] by (fastforce simp: names_def AList.dom_update)

lemma fresh_event_mono:
  "fresh_event g vp q w1 ev \<Longrightarrow> names w1 \<subseteq> names w' \<Longrightarrow> fresh_event g vp q w' ev"
  by (auto simp: fresh_event_def split: option.splits)

text \<open>One step of the loop, seen from outside: at most one new event.\<close>

lemma generate_audio_step:
  assumes "generate_audio g e q vp w = (res, w1)"
  obtains evs where "api_log w1 = api_log w @ evs" "length evs \<le> 1"
    "\<forall>ev \<in> set evs. fresh_event g vp q w1 ev"
    "\<And>r. res = Inr r \<Longrightarrow>
       (case r of Some p \<Rightarrow> 1 | None \<Rightarrow> 0) = length (filter (\<lambda>ev. returned ev \<noteq> None) evs)"
proof -
  from generate_audio_cases [OF assms]
  consider "api_log w1 = api_log w" "\<forall>p. res \<noteq> Inr (Some p)"
    | ev where "api_log w1 = api_log w @ [ev]" "fresh_event g vp q w1 ev"
        "res = Inr (returned ev) \<or> returned ev = None \<and> (\<exists>err. res = Inl err)"
    by blast
  then show thesis
  proof cases
    case 1
    show thesis
    proof (rule that [of "[]"])
      fix r assume "res = Inr r"
      with 1 show "(case r of Some p \<Rightarrow> 1 | None \<Rightarrow> 0) = length (filter (\<lambda>ev. returned ev \<noteq> None) [])"
        by (cases r) auto
    qed (use 1 in auto)
  next
    case 2
    show thesis
    proof (rule that [of "[ev]"])
      fix r assume "res = Inr r"
      with 2 show "(case r of Some p \<Rightarrow> 1 | None \<Rightarrow> 0) = length (filter (\<lambda>ev. returned ev \<noteq> None) [ev])"
        by (auto split: option.splits)
    qed (use 2 in auto)
  qed
qed

lemma batch_loop_effects:
  assumes "batch_loop g e vp d qs s f w = (res, w')"
  shows "names w \<subseteq> names w' \<and>
         (\<exists>evs. api_log w' = api_log w @ evs \<and>
                (\<forall>ev \<in> set evs. \<exists>q \<in> set qs. fresh_event g vp q w' ev) \<and>
                (\<forall>s' f'. res = Inr (s', f') \<longrightarrow>
                   s' = s + length (filter (\<lambda>ev. returned ev \<noteq> None) evs) \<and>
                   s' + f' = s + f + length qs))"
  using assms
proof (induction qs arbitrary: s f w)
  case Nil
  then show ?case by auto
next
  case (Cons q qs)
  obtain r w1 where ga: "generate_audio g e q vp w = (r, w1)"
    by (cases "generate_audio g e q vp w")
  note sub1 = generate_audio_names [OF ga]
  from generate_audio_step [OF ga] obtain evs1 where
    evs1: "api_log w1 = api_log w @ evs1" "\<forall>ev \<in> set evs1. fresh_event g vp q w1 ev"
      "\<And>x. r = Inr x \<Longrightarrow>
         (case x of Some p \<Rightarrow> 1 | None \<Rightarrow> 0) = length (filter (\<lambda>ev. returned ev \<noteq> None) evs1)"
    by metis
  show ?case
  proof (cases "\<exists>x. r = Inr x \<and> time_sleep e d = None")
    case False
    with Cons.prems ga have stop: "w' = w1" "\<forall>s' f'. res \<noteq> Inr (s', f')"
      by (auto split: sum.splits if_splits)
    with sub1 evs1 show ?thesis by auto
  next
    case True
    then obtain x where x: "r = Inr x" "time_sleep e d = None" by blast
    define s2 where "s2 = (case x of Some p \<Rightarrow> Suc s | None \<Rightarrow> s)"
    define f2 where "f2 = (case x of Some p \<Rightarrow> f | None \<Rightarrow> Suc f)"
    from Cons.prems ga x have rest: "batch_loop g e vp d qs s2 f2 w1 = (res, w')"
      by (auto simp: s2_def f2_def split: option.splits)
    from Cons.IH [OF rest] obtain evs2 where
      sub2: "names w1 \<subseteq> names w'" and
      evs2: "api_log w' = api_log w1 @ evs2" "\<forall>ev \<in> set evs2. \<exists>q \<in> set qs. fresh_event g vp q w' ev"
        "\<forall>s' f'. res = Inr (s', f') \<longrightarrow>
           s' = s2 + length (filter (\<lambda>ev. returned ev \<noteq> None) evs2) \<and> s' + f' = s2 + f2 + length qs"
      by blast
    have cnt: "s2 = s + length (filter (\<lambda>ev. returned ev \<noteq> None) evs1)" "s2 + f2 = Suc (s + f)"
      using evs1(3) [OF x(1)] by (auto simp: s2_def f2_def split: option.splits)
    have "api_log w' = api_log w @ (evs1 @ evs2)"
      using evs1(1) evs2(1) by simp
    moreover have "\<forall>ev \<in> set (evs1 @ evs2). \<exists>q' \<in> set (q # qs). fresh_event g vp q' w' ev"
      using evs1(2) evs2(2) fresh_event_mono [OF _ sub2] by auto
    moreover have "\<forall>s' f'. res = Inr (s', f') \<longrightarrow>
        s' = s + length (filter (\<lambda>ev. returned ev \<noteq> None) (evs1 @ evs2)) \<and>
        s' + f' = s + f + length (q # qs)"
      using evs2(3) cnt by auto
    ultimately show ?thesis using sub1 sub2 by blast
  qed
qed


lemma blank_generate_audio:
  assumes "blank_text (tts_text q)" "generate_audio g e q vp w = (res, w1)"
  shows "res = Inr None \<and> api_log w1 = api_log w \<and> files w1 = files w"
  using assms
  by (auto simp: generate_audio_def blank_text_def split: option.splits pyval.splits)

lemma batch_loop_counts:
  assumes "batch_loop g e vp d qs s f w = (Inr (s', f'), w')"
  shows "f + length (filter (\<lambda>q. blank_text (tts_text q)) qs) \<le> f' \<and>
         s' \<le> s + length (filter (\<lambda>q. \<not> blank_text (tts_text q)) qs)"
  using assms
proof (induction qs arbitrary: s f w)
  case Nil
  then show ?case by simp
next
  case (Cons q qs)
  obtain r w1 where ga: "generate_audio g e q vp w = (r, w1)"
    by (cases "generate_audio g e q vp w")
  with Cons.prems obtain x where x: "r = Inr x" "time_sleep e d = None"
    by (cases r; cases "time_sleep e d") auto
  show ?case
  proof (cases x)
    case None
    with Cons.prems ga x have "batch_loop g e vp d qs s (Suc f) w1 = (Inr (s', f'), w')"
      by simp
    from Cons.IH [OF this] show ?thesis by auto
  next
    case (Some p)
    with blank_generate_audio [OF _ ga] x have nb: "\<not> blank_text (tts_text q)"
      by auto
    from Some Cons.prems ga x have "batch_loop g e vp d qs (Suc s) f w1 = (Inr (s', f'), w')"
      by simp
    from Cons.IH [OF this] nb show ?thesis by auto
  qed
qed

lemma dry_lines_effects:
  "dry_lines qs w = (r, w') \<Longrightarrow> files w' = files w \<and> api_log w' = api_log w"
  by (induction qs arbitrary: w) (auto split: sum.splits)

lemma load_stage_effects:
  "load_stage g e opts w = (r, w1) \<Longrightarrow> files w1 = files w \<and> api_log w1 = api_log w"
  by (auto simp: load_stage_def Let_def split: if_splits sum.splits)

lemma filter_stage_effects:
  "filter_stage g e opts qs w = (r, w1) \<Longrightarrow> files w1 = files w \<and> api_log w1 = api_log w"
  by (auto simp: filter_stage_def split: if_splits sum.splits)

lemma to_process_effects:
  assumes "to_process g e opts w = (r, w2)"
  shows "files w2 = files w \<and> api_log w2 = api_log w"
proof -
  obtain r1 w1 where l: "load_stage g e opts w = (r1, w1)"
    by (cases "load_stage g e opts w")
  show ?thesis
  proof (cases r1)
    case (Inl err)
    with assms l load_stage_effects [OF l] show ?thesis by (simp add: to_process_def)
  next
    case (Inr qs)
    with assms l have "filter_stage g e opts qs w1 = (r, w2)" by (simp add: to_process_def)
    from filter_stage_effects [OF this] load_stage_effects [OF l] show ?thesis by simp
  qed
qed


lemma process_stage_dry:
  assumes "dry_run opts" "process_stage g e opts qs w = (out, w')"
  shows "api_log w' = api_log w \<and> files w' = files w \<and> (\<forall>s f. out \<noteq> Summary s f)"
proof (cases "qs = []")
  case True
  with assms show ?thesis by (auto simp: process_stage_def)
next
  case False
  obtain r w1 where d: "dry_lines (take 20 qs) (say MsgDryHeader w) = (r, w1)"
    by (cases "dry_lines (take 20 qs) (say MsgDryHeader w)")
  from dry_lines_effects [OF d] have "files w1 = files w" "api_log w1 = api_log w"
    by simp_all
  with assms False d show ?thesis
    by (auto simp: process_stage_def split: option.splits if_splits)
qed

lemma process_stage_loop:
  assumes "process_stage g e opts qs w = (out, w')"
  shows "names w \<subseteq> names w' \<and>
         (\<exists>evs. api_log w' = api_log w @ evs \<and>
                (\<forall>ev \<in> set evs. \<exists>q \<in> set qs. fresh_event g (voice_profile opts) q w' ev) \<and>
                (\<forall>s f. out = Summary s f \<longrightarrow>
                   s = length (filter (\<lambda>ev. returned ev \<noteq> None) evs) \<and>
                   s + f = length qs \<and>
                   length (filter (\<lambda>q. blank_text (tts_text q)) qs) \<le> f \<and>
                   s \<le> length (filter (\<lambda>q. \<not> blank_text (tts_text q)) qs)))"
proof (cases "qs = [] \<or> dry_run opts")
  case True
  have quiet: "names w \<subseteq> names w' \<and> api_log w' = api_log w @ [] \<and> (\<forall>s f. out \<noteq> Summary s f)"
  proof (cases "qs = []")
    case True
    with assms show ?thesis by (auto simp: process_stage_def)
  next
    case False
    with True process_stage_dry [OF _ assms] show ?thesis by (simp add: names_def)
  qed
  then show ?thesis by (metis empty_iff empty_set)
next
  case False
  obtain r w1 where
    l: "batch_loop g e (voice_profile opts) (delay opts) qs 0 0 (say (MsgStart (length qs)) w) = (r, w1)"
    by (cases "batch_loop g e (voice_profile opts) (delay opts) qs 0 0 (say (MsgStart (length qs)) w)")
  from False assms l have w': "names w' = names w1" "api_log w' = api_log w1"
    and out: "\<And>s f. out = Summary s f \<Longrightarrow> r = Inr (s, f)"
    by (auto simp: process_stage_def names_def split: sum.splits prod.splits)
  from batch_loop_effects [OF l] obtain evs where
    sub: "names w \<subseteq> names w1" and
    evs: "api_log w1 = api_log w @ evs"
      "\<forall>ev \<in> set evs. \<exists>q \<in> set qs. fresh_event g (voice_profile opts) q w1 ev"
      "\<forall>s' f'. r = Inr (s', f') \<longrightarrow>
         s' = 0 + length (filter (\<lambda>ev. returned ev \<noteq> None) evs) \<and> s' + f' = 0 + 0 + length qs"
    by (auto simp: names_def)
  have fresh: "\<forall>ev \<in> set evs. \<exists>q \<in> set qs. fresh_event g (voice_profile opts) q w' ev"
    using evs(2) w'(1) fresh_event_mono by (metis order_refl)
  have counts: "s = length (filter (\<lambda>ev. returned ev \<noteq> None) evs) \<and> s + f = length qs \<and>
      length (filter (\<lambda>q. blank_text (tts_text q)) qs) \<le> f \<and>
      s \<le> length (filter (\<lambda>q. \<not> blank_text (tts_text q)) qs)" if "out = Summary s f" for s f
  proof -
    from out [OF that] have r: "r = Inr (s, f)" .
    with l batch_loop_counts [of g e "voice_profile opts" "delay opts" qs 0 0 _ s f w1]
    have "0 + length (filter (\<lambda>q. blank_text (tts_text q)) qs) \<le> f \<and>
          s \<le> 0 + length (filter (\<lambda>q. \<not> blank_text (tts_text q)) qs)"
      by blast
    with evs(3) r show ?thesis by simp
  qed
  show ?thesis
    using sub w' evs(1) fresh counts by (intro conjI exI [of _ evs]) auto
qed

section \<open>Dry run\<close>

text \<open>
  C4. A run with \<^verbatim>\<open>dry_run\<close> enabled never calls the service and never writes an audio
  file, whatever the generator, the environment, the other options and the world it
  starts in: the log of calls and the files of the output directory are the same after
  the run as before. Nor does it print a summary.
\<close>

theorem dry_run_no_effect:
  assumes "run_batch g e (opts\<lparr>dry_run := True\<rparr>) w = (out, w')"
  shows "api_log w' = api_log w \<and> files w' = files w \<and> (\<forall>s f. out \<noteq> Summary s f)"
proof -
  let ?o = "opts\<lparr>dry_run := True\<rparr>"
  obtain r w2 where t: "to_process g e ?o w = (r, w2)"
    by (cases "to_process g e ?o w")
  note same = to_process_effects [OF t]
  show ?thesis
  proof (cases r)
    case (Inl err)
    with assms t same show ?thesis by (auto simp: run_batch_def)
  next
    case (Inr qs)
    with assms t have "process_stage g e ?o qs w2 = (out, w')"
      by (simp add: run_batch_def)
    from process_stage_dry [OF _ this] same show ?thesis by simp
  qed
qed

theorem dry_run_no_effect_witness:
  "run_batch example_generator (env_with example_records) (example_options\<lparr>dry_run := True\<rparr>)
       empty_world =
     (DryRunDone,
      \<lparr>files = [], api_log = [],
       stdout = [MsgLoaded 1, MsgAfterFilter 1, MsgDryHeader, MsgDryLine (PInt 1) (PStr ''A'')]\<rparr>) \<and>
   api_log (snd (run_batch example_generator (env_with example_records)
       (example_options\<lparr>dry_run := True\<rparr>) empty_world)) = api_log empty_world \<and>
   files (snd (run_batch example_generator (env_with example_records)
       (example_options\<lparr>dry_run := True\<rparr>) empty_world)) = files empty_world"
proof -
  have run: "run_batch example_generator (env_with example_records)
       (example_options\<lparr>dry_run := True\<rparr>) empty_world =
     (DryRunDone,
      \<lparr>files = [], api_log = [],
       stdout = [MsgLoaded 1, MsgAfterFilter 1, MsgDryHeader, MsgDryLine (PInt 1) (PStr ''A'')]\<rparr>)"
    by (simp add: run_defs example_defs say_def)
  from dry_run_no_effect [OF surjective_pairing, of example_generator "env_with example_records"
      example_options empty_world] run
  show ?thesis by simp
qed

section \<open>Records without text\<close>

text \<open>
  C3. A record whose derived text is empty or only white space is never sent to the
  service and is counted as failed, not as successful. For every run of \<^verbatim>\<open>run_batch\<close>:
  every call the run makes is for one of the quests left to process and carries that
  quest's derived text, which is not blank; and when the run prints its summary, the two
  counters add up to the number of quests left to process, the failed counter is at least
  the number of those whose text is blank, and the successful counter at most the number
  of the others. \<^verbatim>\<open>generate_audio\<close> itself returns \<^verbatim>\<open>None\<close> for such a record without
  calling the service or writing a file.
\<close>

theorem blank_text_never_sent:
  assumes "run_batch g e opts w = (out, w')"
  shows "(\<exists>evs. api_log w' = api_log w @ evs \<and>
           (\<forall>ev \<in> set evs. py_strip (call_text (call ev)) \<noteq> []) \<and>
           (\<forall>qs w2. to_process g e opts w = (Inr qs, w2) \<longrightarrow>
              (\<forall>ev \<in> set evs. \<exists>q \<in> set qs. for_quest ev = quest_id q \<and>
                  tts_text q = PStr (call_text (call ev)) \<and> \<not> blank_text (tts_text q))) \<and>
           (\<forall>s f. out = Summary s f \<longrightarrow>
              (\<exists>qs w2. to_process g e opts w = (Inr qs, w2) \<and>
                 s + f = length qs \<and>
                 length (filter (\<lambda>q. blank_text (tts_text q)) qs) \<le> f \<and>
                 s \<le> length (filter (\<lambda>q. \<not> blank_text (tts_text q)) qs)))) \<and>
         (\<forall>q vp v. blank_text (tts_text q) \<longrightarrow>
            (\<exists>v'. generate_audio g e q vp v = (Inr None, v') \<and>
                  api_log v' = api_log v \<and> files v' = files v))"
proof
  show "\<forall>q vp v. blank_text (tts_text q) \<longrightarrow>
      (\<exists>v'. generate_audio g e q vp v = (Inr None, v') \<and>
            api_log v' = api_log v \<and> files v' = files v)"
  proof (intro allI impI)
    fix q vp v assume blank: "blank_text (tts_text q)"
    obtain res v' where ga: "generate_audio g e q vp v = (res, v')"
      by (cases "generate_audio g e q vp v")
    from blank_generate_audio [OF blank ga] ga
    show "\<exists>v'. generate_audio g e q vp v = (Inr None, v') \<and>
        api_log v' = api_log v \<and> files v' = files v"
      by simp
  qed
next
  obtain r w2 where t: "to_process g e opts w = (r, w2)"
    by (cases "to_process g e opts w")
  note same = to_process_effects [OF t]
  show "\<exists>evs. api_log w' = api_log w @ evs \<and>
           (\<forall>ev \<in> set evs. py_strip (call_text (call ev)) \<noteq> []) \<and>
           (\<forall>qs w2. to_process g e opts w = (Inr qs, w2) \<longrightarrow>
              (\<forall>ev \<in> set evs. \<exists>q \<in> set qs. for_quest ev = quest_id q \<and>
                  tts_text q = PStr (call_text (call ev)) \<and> \<not> blank_text (tts_text q))) \<and>
           (\<forall>s f. out = Summary s f \<longrightarrow>
              (\<exists>qs w2. to_process g e opts w = (Inr qs, w2) \<and>
                 s + f = length qs \<and>
                 length (filter (\<lambda>q. blank_text (tts_text q)) qs) \<le> f \<and>
                 s \<le> length (filter (\<lambda>q. \<not> blank_text (tts_text q)) qs)))"
    (is ?run)
  proof (cases r)
    case (Inl err)
    with assms t have "w' = w2" "out = Raised err"
      by (simp_all add: run_batch_def)
    with same t Inl show ?run
      by (intro exI [of _ "[]"]) simp
  next
    case (Inr qs)
    with assms t have p: "process_stage g e opts qs w2 = (out, w')"
      by (simp add: run_batch_def)
    from process_stage_loop [OF p] obtain evs where
      evs: "api_log w' = api_log w2 @ evs"
        "\<forall>ev \<in> set evs. \<exists>q \<in> set qs. fresh_event g (voice_profile opts) q w' ev"
        "\<forall>s f. out = Summary s f \<longrightarrow>
           s = length (filter (\<lambda>ev. returned ev \<noteq> None) evs) \<and> s + f = length qs \<and>
           length (filter (\<lambda>q. blank_text (tts_text q)) qs) \<le> f \<and>
           s \<le> length (filter (\<lambda>q. \<not> blank_text (tts_text q)) qs)"
      by blast
    have sent: "\<exists>q \<in> set qs. for_quest ev = quest_id q \<and>
        tts_text q = PStr (call_text (call ev)) \<and> \<not> blank_text (tts_text q)"
      and nonblank: "py_strip (call_text (call ev)) \<noteq> []" if "ev \<in> set evs" for ev
    proof -
      from evs(2) that obtain q where q: "q \<in> set qs" "fresh_event g (voice_profile opts) q w' ev"
        by blast
      then show "\<exists>q \<in> set qs. for_quest ev = quest_id q \<and>
          tts_text q = PStr (call_text (call ev)) \<and> \<not> blank_text (tts_text q)"
        by (intro bexI [of _ q]) (auto simp: fresh_event_def blank_text_def)
      from q show "py_strip (call_text (call ev)) \<noteq> []"
        by (simp add: fresh_event_def)
    qed
    show ?run
    proof (rule exI [of _ evs], intro conjI)
      show "api_log w' = api_log w @ evs" using evs(1) same by simp
      show "\<forall>ev \<in> set evs. py_strip (call_text (call ev)) \<noteq> []" using nonblank by blast
      show "\<forall>qs w2. to_process g e opts w = (Inr qs, w2) \<longrightarrow>
              (\<forall>ev \<in> set evs. \<exists>q \<in> set qs. for_quest ev = quest_id q \<and>
                  tts_text q = PStr (call_text (call ev)) \<and> \<not> blank_text (tts_text q))"
        using t Inr sent by auto
      show "\<forall>s f. out = Summary s f \<longrightarrow>
              (\<exists>qs w2. to_process g e opts w = (Inr qs, w2) \<and>
                 s + f = length qs \<and>
                 length (filter (\<lambda>q. blank_text (tts_text q)) qs) \<le> f \<and>
                 s \<le> length (filter (\<lambda>q. \<not> blank_text (tts_text q)) qs))"
        using t Inr evs(3) by auto
    qed
  qed
qed

theorem blank_text_never_sent_witness:
  "run_batch example_generator (env_with blank_records) example_options empty_world =
     (Summary 1 1,
      \<lparr>files = [(''quest_1.mp3'', ''ID3abc'')],
       api_log = [\<lparr>for_quest = PInt 1, call = example_call,
                   returned = Some (''audio'', ''quest_1.mp3'')\<rparr>],
       stdout = [MsgLoaded 2, MsgAfterFilter 2, MsgStart 2, MsgNoText (PInt 2), MsgSummary 1 1]\<rparr>) \<and>
   (\<exists>qs w2. to_process example_generator (env_with blank_records) example_options empty_world =
        (Inr qs, w2) \<and>
      1 + 1 = length qs \<and> length (filter (\<lambda>q. blank_text (tts_text q)) qs) \<le> 1 \<and>
      1 \<le> length (filter (\<lambda>q. \<not> blank_text (tts_text q)) qs))"
proof -
  have run: "run_batch example_generator (env_with blank_records) example_options empty_world =
     (Summary 1 1,
      \<lparr>files = [(''quest_1.mp3'', ''ID3abc'')],
       api_log = [\<lparr>for_quest = PInt 1, call = example_call,
                   returned = Some (''audio'', ''quest_1.mp3'')\<rparr>],
       stdout = [MsgLoaded 2, MsgAfterFilter 2, MsgStart 2, MsgNoText (PInt 2), MsgSummary 1 1]\<rparr>)"
    by (simp add: run_defs example_defs say_def log_call_def write_file_def)
  from blank_text_never_sent [OF run]
  have "\<exists>qs w2. to_process example_generator (env_with blank_records) example_options empty_world =
        (Inr qs, w2) \<and>
      1 + 1 = length qs \<and> length (filter (\<lambda>q. blank_text (tts_text q)) qs) \<le> 1 \<and>
      1 \<le> length (filter (\<lambda>q. \<not> blank_text (tts_text q)) qs)"
    by blast
  with run show ?thesis by (rule conjI)
qed

section \<open>The example of the specification\<close>

text \<open>
  C6, as the code has it. The example holds (below), but the general sentence does not:
  the derived text is not the title concatenated with the description. For the example's
  record it is \<^verbatim>\<open>A. B\<close>, with a full stop and a space between the two; that separator
  is there after a title even when the description is empty, and it is not there when the
  title is empty.
\<close>

theorem derived_text_counterexample:
  "tts_text example_quest = PStr ''A. B'' \<and>
   tts_text example_quest \<noteq> PStr (''A'' @ ''B'') \<and>
   tts_text (example_quest\<lparr>description := PStr []\<rparr>) = PStr ''A. '' \<and>
   tts_text (example_quest\<lparr>title := PStr []\<rparr>) = PStr ''B''"
  by (simp add: tts_text_def example_quest_def py_or_def)

text \<open>
  C6, amended. With the example configuration (profile \<^verbatim>\<open>epic_narrator\<close> mapped to voice
  id \<^verbatim>\<open>X1\<close>), a quest file holding the one record with id 1, title \<^verbatim>\<open>A\<close> and
  description \<^verbatim>\<open>B\<close>, an empty output directory and the profile \<^verbatim>\<open>epic_narrator\<close>, a run
  in which the service answers the call with a complete stream, the file can be written
  and the sleep after the call returns (the delay is a number of seconds that is not
  negative, not beyond the clock's range and not refused by the system) makes exactly one
  call, with the
  text \<^verbatim>\<open>A. B\<close> and the voice id \<^verbatim>\<open>X1\<close>, creates \<^verbatim>\<open>quest_1.mp3\<close> with the streamed bytes
  and reports 1 successful and 0 failed. In general the derived text is the title, then a
  full stop and a space, then the description, when the title is not empty, and the
  description alone when it is; a missing (\<^verbatim>\<open>None\<close>) title or description counts as the
  empty string.
\<close>

theorem spec_example:
  assumes "read_json e (ProjectFile ''data/quests.json'') = Decoded example_records"
    and "mkdir_ok e" and "can_open e ''quest_1.mp3''"
    and "api e 0 example_call = ApiStream chunks None"
    and "quest_ids opts = None" and "\<not> from_export opts" and "\<not> dry_run opts"
    and "voice_profile opts = Some ''epic_narrator''"
    and "time_sleep e (delay opts) = None"
  shows "(\<exists>w'. run_batch example_generator e opts empty_world = (Summary 1 0, w') \<and>
            api_log w' = [\<lparr>for_quest = PInt 1, call = example_call,
                            returned = Some (''audio'', ''quest_1.mp3'')\<rparr>] \<and>
            files w' = [(''quest_1.mp3'', concat chunks)]) \<and>
         (\<forall>q t d. (title q = PStr t \<or> title q = PNone \<and> t = []) \<and>
                  (description q = PStr d \<or> description q = PNone \<and> d = []) \<longrightarrow>
                  tts_text q = PStr (if t = [] then d else t @ ''. '' @ d))"
proof
  have call: "api e 0 \<lparr>call_voice_id = PStr ''X1'', call_text = ''A. B'',
      call_model_id = PStr ''eleven_multilingual_v2'',
      call_voice_settings = PDict [(''use_speaker_boost'', PBool True)]\<rparr> = ApiStream chunks None"
    using assms(4) by (simp add: example_call_def)
  show "\<exists>w'. run_batch example_generator e opts empty_world = (Summary 1 0, w') \<and>
            api_log w' = [\<lparr>for_quest = PInt 1, call = example_call,
                            returned = Some (''audio'', ''quest_1.mp3'')\<rparr>] \<and>
            files w' = [(''quest_1.mp3'', concat chunks)]"
    using assms(1-3,5-9) call
    by (simp add: run_batch_def to_process_def load_stage_def load_quests_def
          project_path_def subscript2_def load_json_def quests_of_def dict_get_def filter_stage_def
          get_existing_audio_files_def existing_ids_def existing_id_def List.map_filter_def
          in_int_set_def in_int_list_def equals_member_def process_stage_def generate_audio_def
          tts_text_def py_or_def py_strip_def is_space_def resolve_voice_def convert_and_save_def
          output_name_def show_int_def show_nat.simps digit_chars Let_def
          example_defs say_def log_call_def write_file_def)
  show "\<forall>q t d. (title q = PStr t \<or> title q = PNone \<and> t = []) \<and>
                  (description q = PStr d \<or> description q = PNone \<and> d = []) \<longrightarrow>
                  tts_text q = PStr (if t = [] then d else t @ ''. '' @ d)"
    by (auto simp: tts_text_def py_or_def)
qed

theorem spec_example_witness:
  "run_batch example_generator (env_with example_records) example_options empty_world =
     (Summary 1 0,
      \<lparr>files = [(''quest_1.mp3'', ''ID3abc'')],
       api_log = [\<lparr>for_quest = PInt 1, call = example_call,
                   returned = Some (''audio'', ''quest_1.mp3'')\<rparr>],
       stdout = [MsgLoaded 1, MsgAfterFilter 1, MsgStart 1, MsgSummary 1 0]\<rparr>) \<and>
   (\<exists>w'. run_batch example_generator (env_with example_records) example_options empty_world =
       (Summary 1 0, w') \<and>
      api_log w' = [\<lparr>for_quest = PInt 1, call = example_call,
                      returned = Some (''audio'', ''quest_1.mp3'')\<rparr>] \<and>
      files w' = [(''quest_1.mp3'', concat [''ID3'', ''abc''])]) \<and>
   tts_text example_quest = PStr ''A. B''"
proof -
  have run: "run_batch example_generator (env_with example_records) example_options empty_world =
     (Summary 1 0,
      \<lparr>files = [(''quest_1.mp3'', ''ID3abc'')],
       api_log = [\<lparr>for_quest = PInt 1, call = example_call,
                   returned = Some (''audio'', ''quest_1.mp3'')\<rparr>],
       stdout = [MsgLoaded 1, MsgAfterFilter 1, MsgStart 1, MsgSummary 1 0]\<rparr>)"
    by (simp add: run_defs example_defs say_def log_call_def write_file_def)
  note ex = spec_example [of "env_with example_records" "[''ID3'', ''abc'']" example_options]
  have hyps: "read_json (env_with example_records) (ProjectFile ''data/quests.json'') =
      Decoded example_records"
    "mkdir_ok (env_with example_records)" "can_open (env_with example_records) ''quest_1.mp3''"
    "api (env_with example_records) 0 example_call = ApiStream [''ID3'', ''abc''] None"
    "quest_ids example_options = None" "\<not> from_export example_options"
    "\<not> dry_run example_options" "voice_profile example_options = Some ''epic_narrator''"
    "time_sleep (env_with example_records) (delay example_options) = None"
    by (simp_all add: env_with_def example_options_def time_sleep_def)
  from ex [OF hyps]
  have "\<exists>w'. run_batch example_generator (env_with example_records) example_options empty_world =
       (Summary 1 0, w') \<and>
      api_log w' = [\<lparr>for_quest = PInt 1, call = example_call,
                      returned = Some (''audio'', ''quest_1.mp3'')\<rparr>] \<and>
      files w' = [(''quest_1.mp3'', concat [''ID3'', ''abc''])]"
    and "tts_text example_quest = PStr (if ''A'' = [] then ''B'' else ''A'' @ ''. '' @ ''B'')"
    by (simp_all add: example_quest_def)
  with run show ?thesis by simp
qed

section \<open>Voice resolution\<close>

text \<open>
  C5, as the code has it. The claim that a profile name that is a key of the table always
  resolves to its entry fails for the empty name: line 140 tests the name for truth first,
  so an empty name takes the default voice even when the table has an entry for it.
\<close>

theorem voice_resolution_counterexample:
  "contains (PDict [([], PDict [(''voice_id'', PStr ''X1'')])]) [] = Inr True \<and>
   subscript2 (PDict [([], PDict [(''voice_id'', PStr ''X1'')])]) [] ''voice_id'' = Inr (PStr ''X1'') \<and>
   subscript empty_key_config ''voice_profiles'' = Inr (PDict [([], PDict [(''voice_id'', PStr ''X1'')])]) \<and>
   resolve_voice empty_key_config (Some []) = Inr (PStr ''D0'') \<and>
   generate_audio \<lparr>config = empty_key_config, client = Some (PStr ''sk-1'')\<rparr>
       (env_with example_records) example_quest (Some []) empty_world =
     (Inr (Some (''audio'', ''quest_1.mp3'')),
      \<lparr>files = [(''quest_1.mp3'', ''ID3abc'')],
       api_log = [\<lparr>for_quest = PInt 1, call = example_call\<lparr>call_voice_id := PStr ''D0''\<rparr>,
                   returned = Some (''audio'', ''quest_1.mp3'')\<rparr>],
       stdout = []\<rparr>)"
  by (simp add: run_defs example_defs empty_key_config_def example_quest_def log_call_def write_file_def)

text \<open>
  C5, amended. If the profile name is omitted or empty, the voice id is the configured
  default one. If the name is not empty and the configuration has a profile table, the
  voice id is the default one when the name is not a key of the table and the voice id of
  the table's entry when it is. A call that \<^verbatim>\<open>generate_audio\<close> makes carries the voice
  id so resolved.
\<close>

theorem voice_resolution:
  "(vp = None \<or> vp = Some [] \<longrightarrow>
      resolve_voice cfg vp = subscript2 cfg ''elevenlabs'' ''voice_id'') \<and>
   (\<forall>p table. vp = Some p \<and> p \<noteq> [] \<and> subscript cfg ''voice_profiles'' = Inr (PDict table) \<longrightarrow>
      resolve_voice cfg vp =
        (if p \<in> set (map fst table) then subscript2 (PDict table) p ''voice_id''
         else subscript2 cfg ''elevenlabs'' ''voice_id'')) \<and>
   (\<forall>g e q w res w' ev.
      config g = cfg \<and> generate_audio g e q vp w = (res, w') \<and> api_log w' = api_log w @ [ev] \<longrightarrow>
      resolve_voice cfg vp = Inr (call_voice_id (call ev)))"
proof (intro conjI allI impI)
  assume "vp = None \<or> vp = Some []"
  then show "resolve_voice cfg vp = subscript2 cfg ''elevenlabs'' ''voice_id''"
    by (auto simp: resolve_voice_def)
next
  fix p table
  assume "vp = Some p \<and> p \<noteq> [] \<and> subscript cfg ''voice_profiles'' = Inr (PDict table)"
  then show "resolve_voice cfg vp =
        (if p \<in> set (map fst table) then subscript2 (PDict table) p ''voice_id''
         else subscript2 cfg ''elevenlabs'' ''voice_id'')"
    by (simp add: resolve_voice_def subscript2_def)
next
  fix g e q w res w' ev
  assume a: "config g = cfg \<and> generate_audio g e q vp w = (res, w') \<and> api_log w' = api_log w @ [ev]"
  then have "generate_audio g e q vp w = (res, w')" by simp
  from generate_audio_cases [OF this] a have "fresh_event g vp q w' ev"
    by auto
  with a show "resolve_voice cfg vp = Inr (call_voice_id (call ev))"
    by (simp add: fresh_event_def)
qed

theorem voice_resolution_witness:
  "resolve_voice example_config None = Inr (PStr ''D0'') \<and>
   resolve_voice example_config (Some ''epic_narrator'') = Inr (PStr ''X1'') \<and>
   resolve_voice example_config (Some ''nobody'') = Inr (PStr ''D0'')"
proof -
  have table: "subscript example_config ''voice_profiles'' =
      Inr (PDict [(''epic_narrator'', PDict [(''voice_id'', PStr ''X1'')])])"
    by (simp add: example_config_def)
  have "resolve_voice example_config None = subscript2 example_config ''elevenlabs'' ''voice_id''"
    using voice_resolution [of None example_config] by simp
  moreover have "resolve_voice example_config (Some ''epic_narrator'') =
      subscript2 (PDict [(''epic_narrator'', PDict [(''voice_id'', PStr ''X1'')])])
        ''epic_narrator'' ''voice_id''"
    using voice_resolution [of "Some ''epic_narrator''" example_config] table by simp
  moreover have "resolve_voice example_config (Some ''nobody'') =
      subscript2 example_config ''elevenlabs'' ''voice_id''"
    using voice_resolution [of "Some ''nobody''" example_config] table by simp
  ultimately show ?thesis
    by (simp add: subscript2_def example_config_def)
qed

section \<open>Stripping white space\<close>

lemma dropWhile_keeps: "x \<in> set xs \<Longrightarrow> \<not> P x \<Longrightarrow> x \<in> set (dropWhile P xs)"
  by (induction xs) auto

lemma py_strip_Nil_iff: "py_strip s = [] \<longleftrightarrow> (\<forall>c \<in> set s. is_space c)"
proof
  assume "py_strip s = []"
  then have all: "\<forall>c \<in> set (dropWhile is_space s). is_space c"
    by (simp add: py_strip_def dropWhile_eq_Nil_conv)
  show "\<forall>c \<in> set s. is_space c"
  proof
    fix c assume "c \<in> set s"
    show "is_space c"
    proof (rule ccontr)
      assume "\<not> is_space c"
      with \<open>c \<in> set s\<close> have "c \<in> set (dropWhile is_space s)" by (rule dropWhile_keeps)
      with all \<open>\<not> is_space c\<close> show False by blast
    qed
  qed
next
  assume "\<forall>c \<in> set s. is_space c"
  then have "\<forall>c \<in> set (dropWhile is_space s). is_space c"
    by (meson set_dropWhileD)
  then show "py_strip s = []" by (simp add: py_strip_def)
qed

lemma full_stop_not_space: "\<not> is_space (CHR ''.'')"
  by (simp add: is_space_def)

lemma say_eq_iff [simp]: "say a w = say b w \<longleftrightarrow> a = b"
proof
  assume "say a w = say b w"
  then have "stdout (say a w) = stdout (say b w)" by simp
  then show "a = b" by simp
qed simp

section \<open>The empty-text check\<close>

text \<open>
  C9. For a record whose title is a string: if the title is not empty, be it white space
  only, the derived text is a string that contains a full stop, so it is not blank; and
  \<^verbatim>\<open>generate_audio\<close> takes the empty-text exit (it prints that the quest has no text
  and returns \<^verbatim>\<open>None\<close>) exactly when the client is there, the title is the empty
  string and the description, with \<^verbatim>\<open>None\<close> and the other false values read as the
  empty string, is empty or white space only.
\<close>

theorem empty_text_check:
  assumes "title q = PStr t"
  shows "(t \<noteq> [] \<longrightarrow>
            (\<exists>s. tts_text q = PStr s \<and> CHR ''.'' \<in> set s \<and> py_strip s \<noteq> []) \<and>
            \<not> blank_text (tts_text q)) \<and>
         ((generate_audio g e q vp w = (Inr None, say (MsgNoText (quest_id q)) w)) =
            (client g \<noteq> None \<and> t = [] \<and> blank_text (py_or (description q) (PStr []))))"
proof
  show "t \<noteq> [] \<longrightarrow>
          (\<exists>s. tts_text q = PStr s \<and> CHR ''.'' \<in> set s \<and> py_strip s \<noteq> []) \<and>
          \<not> blank_text (tts_text q)"
  proof
    assume "t \<noteq> []"
    let ?s = "t @ ''. '' @ py_str (py_or (description q) (PStr []))"
    from assms \<open>t \<noteq> []\<close> have s: "tts_text q = PStr ?s"
      by (simp add: tts_text_def)
    have dot: "CHR ''.'' \<in> set ?s" by simp
    with full_stop_not_space have "py_strip ?s \<noteq> []"
      unfolding py_strip_Nil_iff by blast
    with s dot show "(\<exists>s. tts_text q = PStr s \<and> CHR ''.'' \<in> set s \<and> py_strip s \<noteq> []) \<and>
        \<not> blank_text (tts_text q)"
      by (simp add: blank_text_def)
  qed
next
  show "(generate_audio g e q vp w = (Inr None, say (MsgNoText (quest_id q)) w)) =
          (client g \<noteq> None \<and> t = [] \<and> blank_text (py_or (description q) (PStr [])))"
  proof (cases "client g")
    case None
    then have "generate_audio g e q vp w = (Inr None, say MsgNoClient w)"
      by (simp add: generate_audio_def)
    with None show ?thesis by simp
  next
    case (Some k)
    show ?thesis
    proof (cases "blank_text (tts_text q)")
      case True
      with Some have "generate_audio g e q vp w = (Inr None, say (MsgNoText (quest_id q)) w)"
        by (auto simp: generate_audio_def blank_text_def split: pyval.splits)
      moreover from True assms have "t = [] \<and> blank_text (py_or (description q) (PStr []))"
        by (cases "t = []") (auto simp: tts_text_def blank_text_def py_strip_Nil_iff full_stop_not_space)
      ultimately show ?thesis using Some by simp
    next
      case False
      obtain res w1 where ga: "generate_audio g e q vp w = (res, w1)"
        by (cases "generate_audio g e q vp w")
      have "stdout w1 \<noteq> stdout w @ [MsgNoText (quest_id q)]"
        using ga Some False
        by (auto simp: generate_audio_def blank_text_def convert_and_save_def
              except_exception_def Let_def
              split: pyval.splits sum.splits if_splits api_result.splits option.splits)
      with ga have "generate_audio g e q vp w \<noteq> (Inr None, say (MsgNoText (quest_id q)) w)"
        by (auto simp: say_def)
      moreover from False assms have "\<not> (t = [] \<and> blank_text (py_or (description q) (PStr [])))"
        by (auto simp: tts_text_def)
      ultimately show ?thesis by simp
    qed
  qed
qed

theorem empty_text_check_witness:
  "tts_text spaces_quest = PStr ''  . '' \<and> \<not> blank_text (tts_text spaces_quest) \<and>
   generate_audio example_generator (env_with blank_records) blank_quest None empty_world =
     (Inr None, say (MsgNoText (PInt 2)) empty_world) \<and>
   generate_audio example_generator (env_with blank_records) spaces_quest None empty_world \<noteq>
     (Inr None, say (MsgNoText (PInt 3)) empty_world)"
proof -
  have "tts_text spaces_quest = PStr ''  . ''"
    by (simp add: tts_text_def spaces_quest_def py_or_def)
  moreover have "\<not> blank_text (tts_text spaces_quest)"
    using empty_text_check [of spaces_quest "''  ''"] by (simp add: spaces_quest_def)
  moreover have "generate_audio example_generator (env_with blank_records) blank_quest None empty_world =
     (Inr None, say (MsgNoText (PInt 2)) empty_world)"
    using empty_text_check [of blank_quest "[]" example_generator "env_with blank_records" None empty_world]
    by (simp add: blank_quest_def example_generator_def blank_text_def py_or_def py_strip_def is_space_def)
  moreover have "generate_audio example_generator (env_with blank_records) spaces_quest None empty_world \<noteq>
     (Inr None, say (MsgNoText (PInt 3)) empty_world)"
    using empty_text_check [of spaces_quest "''  ''" example_generator "env_with blank_records" None empty_world]
    by (simp add: spaces_quest_def)
  ultimately show ?thesis by simp
qed

section \<open>What generate_audio returns\<close>




section \<open>Writing and reading back an id\<close>

lemma digit_char_facts:
  assumes "n < 10"
  shows "is_digit (digit_char n)" and "digit_val (digit_char n) = int n"
    and "\<not> int_space (digit_char n)" and "digit_char n \<noteq> CHR ''q''"
    and "digit_char n \<noteq> CHR ''+''" and "digit_char n \<noteq> CHR ''-''"
    and "digit_char n \<noteq> CHR ''_''" and "digit_char n \<noteq> CHR ''.''"
proof -
  have code: "of_char (digit_char n) = 48 + n"
    using assms by (simp add: digit_char_def)
  show "is_digit (digit_char n)" "digit_val (digit_char n) = int n" "\<not> int_space (digit_char n)"
    using assms by (simp_all add: is_digit_def digit_val_def int_space_def code)
  have "digit_char n \<noteq> c" if "of_char c < (48 :: nat) \<or> (57 :: nat) < of_char c" for c
    using that code assms by auto
  then show "digit_char n \<noteq> CHR ''q''" "digit_char n \<noteq> CHR ''+''" "digit_char n \<noteq> CHR ''-''"
    "digit_char n \<noteq> CHR ''_''" "digit_char n \<noteq> CHR ''.''"
    by simp_all
qed

lemma show_nat_digits: "show_nat n \<noteq> [] \<and> (\<forall>c \<in> set (show_nat n). \<exists>k < 10. c = digit_char k)"
proof (induction n rule: show_nat.induct)
  case (1 n)
  show ?case
  proof (cases "n < 10")
    case True
    then show ?thesis by (subst (1 2) show_nat.simps) auto
  next
    case False
    have "\<exists>k < 10. digit_char (n mod 10) = digit_char k"
      by (rule exI [of _ "n mod 10"]) simp
    with False "1.IH" show ?thesis
      by (subst (1 2) show_nat.simps) auto
  qed
qed

lemma show_nat_chars:
  assumes "c \<in> set (show_nat n)"
  shows "is_digit c" "\<not> int_space c" "c \<noteq> CHR ''q''" "c \<noteq> CHR ''+''" "c \<noteq> CHR ''-''"
    "c \<noteq> CHR ''_''" "c \<noteq> CHR ''.''"
proof -
  from assms show_nat_digits [of n] obtain k where k: "k < 10" "c = digit_char k"
    by blast
  from digit_char_facts [OF k(1)] k(2)
  show "is_digit c" "\<not> int_space c" "c \<noteq> CHR ''q''" "c \<noteq> CHR ''+''" "c \<noteq> CHR ''-''"
    "c \<noteq> CHR ''_''" "c \<noteq> CHR ''.''"
    by simp_all
qed

lemma digits_ok_all: "s \<noteq> [] \<Longrightarrow> \<forall>c \<in> set s. is_digit c \<and> c \<noteq> CHR ''_'' \<Longrightarrow> digits_ok s"
  by (induction s rule: digits_ok.induct) auto

lemma digits_value_snoc:
  "is_digit c \<Longrightarrow> digits_value (s @ [c]) = 10 * digits_value s + digit_val c"
  by (simp add: digits_value_def)

lemma digits_value_show_nat: "digits_value (show_nat n) = int n"
proof (induction n rule: show_nat.induct)
  case (1 n)
  show ?case
  proof (cases "n < 10")
    case True
    then show ?thesis
      by (subst show_nat.simps) (simp add: digits_value_def digit_char_facts)
  next
    case False
    have "n mod 10 < 10" by simp
    then have "is_digit (digit_char (n mod 10))" "digit_val (digit_char (n mod 10)) = int (n mod 10)"
      by (rule digit_char_facts)+
    moreover have "10 * int (n div 10) + int (n mod 10) = int n"
      by presburger
    ultimately show ?thesis
      using False "1.IH" by (subst show_nat.simps) (simp add: digits_value_snoc)
  qed
qed

lemma strip_int_space_id:
  assumes "s \<noteq> []" "\<not> int_space (hd s)" "\<not> int_space (last s)"
  shows "rev (dropWhile int_space (rev (dropWhile int_space s))) = s"
proof -
  from assms have "dropWhile int_space s = s"
    by (cases s) auto
  moreover from assms have "dropWhile int_space (rev s) = rev s"
    by (cases "rev s") (auto simp: last_rev [symmetric] simp del: last_rev)
  ultimately show ?thesis by simp
qed

lemma py_int_show_int: "py_int (show_int i) = Some i"
proof -
  define n where "n = nat \<bar>i\<bar>"
  let ?d = "show_nat n"
  have ne: "?d \<noteq> []" and chars: "\<And>c. c \<in> set ?d \<Longrightarrow> is_digit c \<and> c \<noteq> CHR ''_'' \<and>
      \<not> int_space c \<and> c \<noteq> CHR ''+'' \<and> c \<noteq> CHR ''-''"
    using show_nat_digits [of n] show_nat_chars [of _ n] by auto
  from ne chars have ok: "digits_ok ?d" by (intro digits_ok_all) auto
  have hd_last: "hd ?d \<in> set ?d" "last ?d \<in> set ?d" using ne by simp_all
  have minus: "\<not> int_space (CHR ''-'')" by (simp add: int_space_def)
  show ?thesis
  proof (cases "i < 0")
    case True
    then have s: "show_int i = CHR ''-'' # ?d" by (simp add: show_int_def n_def)
    have "rev (dropWhile int_space (rev (dropWhile int_space (CHR ''-'' # ?d)))) = CHR ''-'' # ?d"
      using ne chars hd_last minus by (intro strip_int_space_id) auto
    with s ok True show ?thesis
      by (simp add: py_int_def digits_value_show_nat n_def)
  next
    case False
    then have s: "show_int i = ?d" by (simp add: show_int_def n_def)
    have strip: "rev (dropWhile int_space (rev (dropWhile int_space ?d))) = ?d"
      using ne chars hd_last by (intro strip_int_space_id) auto
    from ne obtain c cs where d: "?d = c # cs" by (cases ?d) auto
    with chars [of c] have "split_sign ?d = (False, ?d)" by simp
    with s ok False strip show ?thesis
      by (simp add: py_int_def digits_value_show_nat n_def)
  qed
qed

lemma replace_from_absent: "p \<notin> set s \<Longrightarrow> replace_from p ps new s = s"
  by (induction s) auto

lemma show_int_no_q: "CHR ''q'' \<notin> set (show_int i)"
  using show_nat_chars(3) by (auto simp: show_int_def)

lemma show_int_no_dot: "CHR ''.'' \<notin> set (show_int i)"
  using show_nat_chars(7) by (auto simp: show_int_def)

lemma show_int_nonempty: "show_int i \<noteq> []"
  using show_nat_digits by (auto simp: show_int_def)

lemma py_stem_mp3:
  assumes "CHR ''.'' \<notin> set s" "s \<noteq> []"
  shows "py_stem (''quest_'' @ s @ ''.mp3'') = ''quest_'' @ s"
proof -
  have tw: "takeWhile (\<lambda>c. c \<noteq> CHR ''.'') (rev (''quest_'' @ s @ ''.mp3'')) = ''3pm''"
    by simp
  show ?thesis
    unfolding py_stem_def tw Let_def by simp
qed

lemma existing_id_written: "existing_id (''quest_'' @ show_int i @ ''.mp3'') = Some i"
proof -
  let ?s = "show_int i"
  have glob: "glob_match (''quest_'' @ ?s @ ''.mp3'')"
    by (simp add: glob_match_def suffix_def)
  have stem: "py_stem (''quest_'' @ ?s @ ''.mp3'') = ''quest_'' @ ?s"
    by (rule py_stem_mp3) (simp_all add: show_int_no_dot show_int_nonempty)
  have "py_replace ''quest_'' [] (''quest_'' @ ?s) = ?s"
    by (simp add: py_replace_def replace_from_absent show_int_no_q)
  with glob stem show ?thesis
    by (simp add: existing_id_def py_int_show_int)
qed

section \<open>Skipping what exists\<close>

lemma drop_existing_filter:
  "drop_existing ex qs = Inr qs' \<Longrightarrow> qs' = [q \<leftarrow> qs. \<not> equals_member (quest_id q) ex]"
  by (induction qs arbitrary: qs') (auto simp: in_int_set_def split: sum.splits if_splits)

lemma drop_existing_hashable:
  "\<forall>q \<in> set qs. hashable (quest_id q) \<Longrightarrow>
   drop_existing ex qs = Inr [q \<leftarrow> qs. \<not> equals_member (quest_id q) ex]"
  by (induction qs) (auto simp: in_int_set_def)

lemma existing_ids_iff:
  "i \<in> existing_ids ns \<longleftrightarrow> (\<exists>name \<in> set ns. existing_id name = Some i)"
  by (induction ns) (auto simp: existing_ids_def List.map_filter_simps split: option.splits)

lemma to_process_skip:
  assumes "skip_existing opts" "to_process g e opts w = (Inr qs, w2)" "q \<in> set qs"
  shows "\<not> equals_member (quest_id q) (existing_ids (map fst (files w)))"
proof -
  obtain r1 w1 where l: "load_stage g e opts w = (r1, w1)"
    by (cases "load_stage g e opts w")
  with assms(2) obtain loaded where r1: "r1 = Inr loaded"
    by (cases r1) (auto simp: to_process_def)
  with assms(2) l have f: "filter_stage g e opts loaded w1 = (Inr qs, w2)"
    by (simp add: to_process_def)
  from load_stage_effects [OF l] have same: "files w1 = files w" by simp
  from f assms(1) same have "drop_existing (existing_ids (map fst (files w))) loaded = Inr qs"
    by (auto simp: filter_stage_def get_existing_audio_files_def split: sum.splits if_splits)
  from drop_existing_filter [OF this] assms(3) show ?thesis by simp
qed

lemma run_batch_effects:
  assumes "run_batch g e opts w = (out, w')"
  shows "names w \<subseteq> names w' \<and>
         (\<exists>evs. api_log w' = api_log w @ evs \<and>
            (\<forall>ev \<in> set evs. \<exists>qs w2 q. to_process g e opts w = (Inr qs, w2) \<and> q \<in> set qs \<and>
                fresh_event g (voice_profile opts) q w' ev))"
proof -
  obtain r w2 where t: "to_process g e opts w = (r, w2)"
    by (cases "to_process g e opts w")
  from to_process_effects [OF t] have same: "files w2 = files w" "api_log w2 = api_log w"
    by simp_all
  show ?thesis
  proof (cases r)
    case (Inl err)
    with assms t have "w' = w2" by (simp add: run_batch_def)
    with same show ?thesis by (simp add: names_def)
  next
    case (Inr qs)
    with assms t have p: "process_stage g e opts qs w2 = (out, w')"
      by (simp add: run_batch_def)
    from process_stage_loop [OF p] obtain evs where
      "names w2 \<subseteq> names w'" "api_log w' = api_log w2 @ evs"
      "\<forall>ev \<in> set evs. \<exists>q \<in> set qs. fresh_event g (voice_profile opts) q w' ev"
      by blast
    with same t Inr show ?thesis
      by (auto simp: names_def)
  qed
qed

text \<open>
  C7. If a run of \<^verbatim>\<open>run_batch\<close> renders a quest whose id is an int (the call it made
  for the quest ended with \<^verbatim>\<open>generate_audio\<close> returning the path), then a later run with
  skip-existing enabled, started in any world in which the files of the first run are
  still there, makes no call for a quest with that id. This holds for every environment
  and every other option of either run.
\<close>

theorem rerun_skips_rendered:
  assumes "run_batch g e1 opts1 w0 = (out1, w1)"
    and "ev \<in> set (calls_of_run w0 w1)" and "returned ev \<noteq> None" and "for_quest ev = PInt i"
    and "names w1 \<subseteq> names wa"
    and "run_batch g e2 (opts2\<lparr>skip_existing := True\<rparr>) wa = (out2, w2)"
  shows "\<forall>ev' \<in> set (calls_of_run wa w2). for_quest ev' \<noteq> PInt i"
proof
  fix ev' assume new: "ev' \<in> set (calls_of_run wa w2)"
  let ?o2 = "opts2\<lparr>skip_existing := True\<rparr>"
  from run_batch_effects [OF assms(1)] obtain evs where
    evs: "api_log w1 = api_log w0 @ evs"
      "\<forall>ev \<in> set evs. \<exists>qs w2 q. to_process g e1 opts1 w0 = (Inr qs, w2) \<and> q \<in> set qs \<and>
          fresh_event g (voice_profile opts1) q w1 ev"
    by blast
  from evs(1) assms(2) have "ev \<in> set evs" by (simp add: calls_of_run_def)
  with evs(2) obtain q where "fresh_event g (voice_profile opts1) q w1 ev"
    by blast
  with assms(3,4) have q: "quest_id q = PInt i" "output_name q \<in> names w1"
    by (auto simp: fresh_event_def)
  have there: "i \<in> existing_ids (map fst (files wa))"
    unfolding existing_ids_iff
  proof (rule bexI)
    from q(1) show "existing_id (output_name q) = Some i"
      by (simp only: output_name_def py_str.simps py_repr.simps existing_id_written)
    from q(2) assms(5) show "output_name q \<in> set (map fst (files wa))"
      by (auto simp: names_def)
  qed
  from run_batch_effects [OF assms(6)] obtain evs2 where
    evs2: "api_log w2 = api_log wa @ evs2"
      "\<forall>ev \<in> set evs2. \<exists>qs w3 q. to_process g e2 ?o2 wa = (Inr qs, w3) \<and> q \<in> set qs \<and>
          fresh_event g (voice_profile ?o2) q w2 ev"
    by blast
  from evs2(1) new have "ev' \<in> set evs2" by (simp add: calls_of_run_def)
  with evs2(2) obtain qs w3 q' where
    q': "to_process g e2 ?o2 wa = (Inr qs, w3)" "q' \<in> set qs"
      "fresh_event g (voice_profile ?o2) q' w2 ev'"
    by blast
  from to_process_skip [OF _ q'(1,2)]
  have "\<not> equals_member (quest_id q') (existing_ids (map fst (files wa)))"
    by simp
  with there have "quest_id q' \<noteq> PInt i"
    by (auto simp: equals_member_def)
  with q'(3) show "for_quest ev' \<noteq> PInt i"
    by (simp add: fresh_event_def)
qed

theorem rerun_skips_rendered_witness:
  "run_batch example_generator (env_with blank_records) example_options empty_world =
     (Summary 1 1,
      \<lparr>files = [(''quest_1.mp3'', ''ID3abc'')],
       api_log = [\<lparr>for_quest = PInt 1, call = example_call,
                   returned = Some (''audio'', ''quest_1.mp3'')\<rparr>],
       stdout = [MsgLoaded 2, MsgAfterFilter 2, MsgStart 2, MsgNoText (PInt 2), MsgSummary 1 1]\<rparr>) \<and>
   run_batch example_generator (env_with blank_records) example_options
       \<lparr>files = [(''quest_1.mp3'', ''ID3abc'')], api_log = [], stdout = []\<rparr> =
     (Summary 0 1,
      \<lparr>files = [(''quest_1.mp3'', ''ID3abc'')], api_log = [],
       stdout = [MsgLoaded 2, MsgAfterFilter 1, MsgStart 1, MsgNoText (PInt 2), MsgSummary 0 1]\<rparr>) \<and>
   list_all (\<lambda>ev'. for_quest ev' \<noteq> PInt 1)
     (calls_of_run \<lparr>files = [(''quest_1.mp3'', ''ID3abc'')], api_log = [], stdout = []\<rparr>
        (snd (run_batch example_generator (env_with blank_records) example_options
           \<lparr>files = [(''quest_1.mp3'', ''ID3abc'')], api_log = [], stdout = []\<rparr>)))"
proof -
  let ?w1 = "\<lparr>files = [(''quest_1.mp3'', ''ID3abc'')],
       api_log = [\<lparr>for_quest = PInt 1, call = example_call,
                   returned = Some (''audio'', ''quest_1.mp3'')\<rparr>],
       stdout = [MsgLoaded 2, MsgAfterFilter 2, MsgStart 2, MsgNoText (PInt 2), MsgSummary 1 1]\<rparr>"
  let ?wa = "\<lparr>files = [(''quest_1.mp3'', ''ID3abc'')], api_log = [], stdout = []\<rparr>"
  let ?ev = "\<lparr>for_quest = PInt 1, call = example_call,
                   returned = Some (''audio'', ''quest_1.mp3'')\<rparr>"
  have run1: "run_batch example_generator (env_with blank_records) example_options empty_world =
     (Summary 1 1, ?w1)"
    by (simp add: run_defs example_defs say_def log_call_def write_file_def)
  have run2: "run_batch example_generator (env_with blank_records) example_options ?wa =
     (Summary 0 1,
      \<lparr>files = [(''quest_1.mp3'', ''ID3abc'')], api_log = [],
       stdout = [MsgLoaded 2, MsgAfterFilter 1, MsgStart 1, MsgNoText (PInt 2), MsgSummary 0 1]\<rparr>)"
    by code_simp
  have skip: "example_options\<lparr>skip_existing := True\<rparr> = example_options"
    by (simp add: example_options_def)
  have "\<forall>ev' \<in> set (calls_of_run ?wa
      (snd (run_batch example_generator (env_with blank_records) example_options ?wa))).
      for_quest ev' \<noteq> PInt 1"
  proof (rule rerun_skips_rendered [where ev = ?ev and ?w1.0 = ?w1 and ?w0.0 = empty_world
        and ?e1.0 = "env_with blank_records" and ?opts1.0 = example_options
        and ?opts2.0 = example_options and ?out1.0 = "Summary 1 1"
        and ?e2.0 = "env_with blank_records", unfolded skip])
    show "run_batch example_generator (env_with blank_records) example_options empty_world =
        (Summary 1 1, ?w1)" by (rule run1)
    show "?ev \<in> set (calls_of_run empty_world ?w1)"
      by (simp add: calls_of_run_def empty_world_def)
    show "returned ?ev \<noteq> None" by simp
    show "for_quest ?ev = PInt 1" by simp
    show "names ?w1 \<subseteq> names ?wa" by (simp add: names_def)
    show "run_batch example_generator (env_with blank_records) example_options ?wa =
        (fst (run_batch example_generator (env_with blank_records) example_options ?wa),
         snd (run_batch example_generator (env_with blank_records) example_options ?wa))"
      by simp
  qed
  then have "list_all (\<lambda>ev'. for_quest ev' \<noteq> PInt 1)
     (calls_of_run ?wa (snd (run_batch example_generator (env_with blank_records) example_options ?wa)))"
    by (simp add: list_all_iff)
  with run1 run2 show ?thesis by simp
qed

text \<open>
  C1. Let \<^verbatim>\<open>run_batch\<close> have loaded a list of records whose ids can be hashed (ints, as
  declared, or any value but a list or a dict). With skip-existing enabled, and the output
  directory configured and creatable, the scan returns the set of ids read from the names
  of the directory that match \<^verbatim>\<open>quest_*.mp3\<close> (the id is what \<^verbatim>\<open>int\<close> reads from the stem
  without \<^verbatim>\<open>quest_\<close>; other names, and names that hold no int, contribute nothing), and
  the records \<^verbatim>\<open>run_batch\<close> goes on to process are the loaded ones, in order, without
  those whose id is in that set. With skip-existing disabled they are the loaded ones.
\<close>

theorem skip_existing_filter:
  assumes "load_stage g e opts w = (Inr loaded, w1)"
    and "\<forall>q \<in> set loaded. hashable (quest_id q)"
  shows "(skip_existing opts \<and> (\<exists>dir. project_path (config g) ''audio_output'' = Inr dir) \<and>
          mkdir_ok e \<longrightarrow>
            (\<exists>existing.
               get_existing_audio_files g e w1 = Inr existing \<and>
               existing = {i. \<exists>name \<in> names w. glob_match name \<and>
                              py_int (py_replace ''quest_'' [] (py_stem name)) = Some i} \<and>
               run_batch g e opts w =
                 process_stage g e opts [q \<leftarrow> loaded. \<not> equals_member (quest_id q) existing]
                   (say (MsgAfterFilter (length [q \<leftarrow> loaded. \<not> equals_member (quest_id q) existing]))
                      w1))) \<and>
         (\<not> skip_existing opts \<longrightarrow> run_batch g e opts w = process_stage g e opts loaded w1) \<and>
         (\<forall>i ids. equals_member (PInt i) ids = (i \<in> ids))"
proof (intro conjI impI allI)
  assume a: "skip_existing opts \<and> (\<exists>dir. project_path (config g) ''audio_output'' = Inr dir) \<and>
    mkdir_ok e"
  let ?ex = "existing_ids (map fst (files w1))"
  from load_stage_effects [OF assms(1)] have same: "files w1 = files w" by simp
  from a have scan: "get_existing_audio_files g e w1 = Inr ?ex"
    by (auto simp: get_existing_audio_files_def)
  have ids: "?ex = {i. \<exists>name \<in> names w. glob_match name \<and>
      py_int (py_replace ''quest_'' [] (py_stem name)) = Some i}"
    unfolding same
    by (fastforce simp: existing_ids_iff existing_id_def names_def split: if_splits)
  from a scan assms have "run_batch g e opts w =
      process_stage g e opts [q \<leftarrow> loaded. \<not> equals_member (quest_id q) ?ex]
        (say (MsgAfterFilter (length [q \<leftarrow> loaded. \<not> equals_member (quest_id q) ?ex])) w1)"
    by (simp add: run_batch_def to_process_def filter_stage_def drop_existing_hashable)
  with scan ids show "\<exists>existing.
      get_existing_audio_files g e w1 = Inr existing \<and>
      existing = {i. \<exists>name \<in> names w. glob_match name \<and>
                     py_int (py_replace ''quest_'' [] (py_stem name)) = Some i} \<and>
      run_batch g e opts w =
        process_stage g e opts [q \<leftarrow> loaded. \<not> equals_member (quest_id q) existing]
          (say (MsgAfterFilter (length [q \<leftarrow> loaded. \<not> equals_member (quest_id q) existing])) w1)"
    by (intro exI [of _ ?ex]) simp
next
  assume "\<not> skip_existing opts"
  with assms(1) show "run_batch g e opts w = process_stage g e opts loaded w1"
    by (simp add: run_batch_def to_process_def filter_stage_def)
next
  fix i ids
  show "equals_member (PInt i) ids = (i \<in> ids)"
    by (simp add: equals_member_def)
qed

theorem skip_existing_filter_witness:
  "load_stage example_generator (env_with blank_records) example_options used_world =
     (Inr [blank_quest, example_quest], say (MsgLoaded 2) used_world) \<and>
   get_existing_audio_files example_generator (env_with blank_records)
       (say (MsgLoaded 2) used_world) = Inr {1} \<and>
   run_batch example_generator (env_with blank_records) example_options used_world =
     process_stage example_generator (env_with blank_records) example_options [blank_quest]
       (say (MsgAfterFilter 1) (say (MsgLoaded 2) used_world)) \<and>
   run_batch example_generator (env_with blank_records) example_options used_world =
     (Summary 0 1,
      \<lparr>files = [(''quest_1.mp3'', ''ID3''), (''notes.txt'', ''x''), (''quest_x.mp3'', [])],
       api_log = [],
       stdout = [MsgLoaded 2, MsgAfterFilter 1, MsgStart 1, MsgNoText (PInt 2), MsgSummary 0 1]\<rparr>)"
proof -
  have loaded: "load_stage example_generator (env_with blank_records) example_options used_world =
     (Inr [blank_quest, example_quest], say (MsgLoaded 2) used_world)"
    by (simp add: run_defs example_defs blank_quest_def example_quest_def)
  have hash: "\<forall>q \<in> set [blank_quest, example_quest]. hashable (quest_id q)"
    by (simp add: blank_quest_def example_quest_def)
  have cfg: "skip_existing example_options \<and>
      (\<exists>dir. project_path (config example_generator) ''audio_output'' = Inr dir) \<and>
      mkdir_ok (env_with blank_records)"
    by (simp add: run_defs example_defs)
  have scan: "get_existing_audio_files example_generator (env_with blank_records)
       (say (MsgLoaded 2) used_world) = Inr {1}"
    by code_simp
  have ids: "[q \<leftarrow> [blank_quest, example_quest]. \<not> equals_member (quest_id q) {1}] = [blank_quest]"
    by (simp add: equals_member_def blank_quest_def example_quest_def)
  from skip_existing_filter [OF loaded hash] cfg scan
  have "run_batch example_generator (env_with blank_records) example_options used_world =
     process_stage example_generator (env_with blank_records) example_options
       [q \<leftarrow> [blank_quest, example_quest]. \<not> equals_member (quest_id q) {1}]
       (say (MsgAfterFilter (length [q \<leftarrow> [blank_quest, example_quest].
           \<not> equals_member (quest_id q) {1}])) (say (MsgLoaded 2) used_world))"
    by auto
  then have step: "run_batch example_generator (env_with blank_records) example_options used_world =
     process_stage example_generator (env_with blank_records) example_options [blank_quest]
       (say (MsgAfterFilter 1) (say (MsgLoaded 2) used_world))"
    by (simp only: ids list.size One_nat_def [symmetric] add_0)
  have run: "run_batch example_generator (env_with blank_records) example_options used_world =
     (Summary 0 1,
      \<lparr>files = [(''quest_1.mp3'', ''ID3''), (''notes.txt'', ''x''), (''quest_x.mp3'', [])],
       api_log = [],
       stdout = [MsgLoaded 2, MsgAfterFilter 1, MsgStart 1, MsgNoText (PInt 2), MsgSummary 0 1]\<rparr>)"
    by code_simp
  from loaded scan step run show ?thesis by (intro conjI)
qed

text \<open>
  C10. Given a non-empty list of ids and not loading from the export, the records
  selected are those of the quest file whose id equals one of the given ids, in the order
  of the file. No error is raised and nothing but the number of selected records is
  printed, so an id that no record has leaves no trace: two non-empty id lists that pick
  the same records of the file lead to the same result, whatever their order and whatever
  other ids they hold.
\<close>

theorem explicit_id_selection:
  assumes "load_quests g e None = Inr all_quests"
    and "quest_ids opts = Some ids" and "ids \<noteq> []" and "\<not> from_export opts"
  shows "load_stage g e opts w =
           (Inr [q \<leftarrow> all_quests. equals_member (quest_id q) (set ids)],
            say (MsgLoaded (length [q \<leftarrow> all_quests. equals_member (quest_id q) (set ids)])) w) \<and>
         (\<forall>q i. quest_id q = PInt i \<longrightarrow> equals_member (quest_id q) (set ids) = (i \<in> set ids)) \<and>
         (\<forall>ids'. ids' \<noteq> [] \<and>
            (\<forall>q \<in> set all_quests. equals_member (quest_id q) (set ids') =
                                    equals_member (quest_id q) (set ids)) \<longrightarrow>
            load_stage g e (opts\<lparr>quest_ids := Some ids'\<rparr>) w = load_stage g e opts w \<and>
            to_process g e (opts\<lparr>quest_ids := Some ids'\<rparr>) w = to_process g e opts w \<and>
            run_batch g e (opts\<lparr>quest_ids := Some ids'\<rparr>) w = run_batch g e opts w)"
proof (intro conjI allI impI)
  show sel: "load_stage g e opts w =
      (Inr [q \<leftarrow> all_quests. equals_member (quest_id q) (set ids)],
       say (MsgLoaded (length [q \<leftarrow> all_quests. equals_member (quest_id q) (set ids)])) w)"
    using assms by (simp add: load_stage_def in_int_list_def Let_def)
  fix ids'
  assume a: "ids' \<noteq> [] \<and> (\<forall>q \<in> set all_quests.
      equals_member (quest_id q) (set ids') = equals_member (quest_id q) (set ids))"
  then have "[q \<leftarrow> all_quests. equals_member (quest_id q) (set ids')] =
      [q \<leftarrow> all_quests. equals_member (quest_id q) (set ids)]"
    by (intro filter_cong) auto
  with a assms show l: "load_stage g e (opts\<lparr>quest_ids := Some ids'\<rparr>) w = load_stage g e opts w"
    by (simp add: load_stage_def in_int_list_def Let_def)
  then show t: "to_process g e (opts\<lparr>quest_ids := Some ids'\<rparr>) w = to_process g e opts w"
    by (simp add: to_process_def filter_stage_def split: prod.splits sum.splits)
  then show "run_batch g e (opts\<lparr>quest_ids := Some ids'\<rparr>) w = run_batch g e opts w"
    by (simp add: run_batch_def process_stage_def split: prod.splits sum.splits)
next
  fix q i assume "quest_id q = PInt i"
  then show "equals_member (quest_id q) (set ids) = (i \<in> set ids)"
    by (simp add: equals_member_def)
qed

theorem explicit_id_selection_witness:
  "load_stage example_generator (env_with blank_records)
       (example_options\<lparr>quest_ids := Some [1, 99, 2]\<rparr>) empty_world =
     (Inr [blank_quest, example_quest], say (MsgLoaded 2) empty_world) \<and>
   load_stage example_generator (env_with blank_records)
       (example_options\<lparr>quest_ids := Some [1, 99]\<rparr>) empty_world =
     (Inr [example_quest], say (MsgLoaded 1) empty_world) \<and>
   load_stage example_generator (env_with blank_records)
       (example_options\<lparr>quest_ids := Some [1]\<rparr>) empty_world =
     (Inr [example_quest], say (MsgLoaded 1) empty_world)"
proof -
  have all: "load_quests example_generator (env_with blank_records) None =
      Inr [blank_quest, example_quest]"
    by (simp add: run_defs example_defs blank_quest_def example_quest_def)
  note sel = explicit_id_selection [OF all, where w = empty_world, THEN conjunct1]
  have "load_stage example_generator (env_with blank_records)
       (example_options\<lparr>quest_ids := Some [1, 99, 2]\<rparr>) empty_world =
     (Inr [blank_quest, example_quest], say (MsgLoaded 2) empty_world)"
    using sel [of "example_options\<lparr>quest_ids := Some [1, 99, 2]\<rparr>" "[1, 99, 2]"]
    by (simp add: example_options_def equals_member_def blank_quest_def example_quest_def)
  moreover have "load_stage example_generator (env_with blank_records)
       (example_options\<lparr>quest_ids := Some [1, 99]\<rparr>) empty_world =
     (Inr [example_quest], say (MsgLoaded 1) empty_world)"
    using sel [of "example_options\<lparr>quest_ids := Some [1, 99]\<rparr>" "[1, 99]"]
    by (simp add: example_options_def equals_member_def blank_quest_def example_quest_def)
  moreover have "load_stage example_generator (env_with blank_records)
       (example_options\<lparr>quest_ids := Some [1]\<rparr>) empty_world =
     (Inr [example_quest], say (MsgLoaded 1) empty_world)"
    using sel [of "example_options\<lparr>quest_ids := Some [1]\<rparr>" "[1]"]
    by (simp add: example_options_def equals_member_def blank_quest_def example_quest_def)
  ultimately show ?thesis by (intro conjI)
qed

end
